theory Spec2Isabelle
  imports Main "HOL-Library.Sublist" "HOL-Library.AList"
begin

section \<open>Data model of \<open>AthenaTable.cast_dataframe\<close>\<close>

text \<open>
  The cells of a pandas frame that the casting code looks at: Python integers (unbounded),
  strings, and the typed timestamps that \<open>pandas.to_datetime\<close> produces. A timestamp is
  represented by its canonical text, which is also what \<open>str\<close> returns for it.
\<close>

datatype val = IntV int | StrV string | TimeV string

type_synonym series = "val list"

text \<open>
  A frame is an ordered list of named columns. \<open>frame[col]\<close> reads the first column with
  that label and \<open>frame[col] = s\<close> replaces it in place, keeping its position.
\<close>

type_synonym frame = "(string \<times> series) list"

text \<open>One entry of \<open>glue_definition["Table"]["StorageDescriptor"]["Columns"]\<close>.\<close>

record column =
  Name :: string
  Type :: string

datatype error = ParseError | TypeCoercionError | TypeError | KeyError

text \<open>
  What the caller observes: either the call returns the frame, or it raises and the
  caller's frame object is left in the state it had at the raise.
\<close>

datatype outcome = Returned frame | Raised error frame

text \<open>
  The two library calls whose code is not part of \<open>athena_table.py\<close> are parameters of
  the model: \<open>pandas.to_datetime\<close> on a series, and \<open>cast_series_type\<close> on a series and a
  catalog type name. \<open>None\<close> stands for the call raising, which the caller sees as
  \<open>ParseError\<close> respectively \<open>TypeCoercionError\<close>.
\<close>

record env =
  to_datetime :: "series \<Rightarrow> series option"
  cast_series_type :: "series \<Rightarrow> string \<Rightarrow> series option"

subsection \<open>Python primitives\<close>

definition columns :: "frame \<Rightarrow> string list" where
  "columns frame = map fst frame"

definition getitem :: "frame \<Rightarrow> string \<Rightarrow> series option" where
  "getitem frame col = map_of frame col"

definition setitem :: "string \<Rightarrow> series \<Rightarrow> frame \<Rightarrow> frame" where
  "setitem col s frame = AList.update col s frame"

definition endswith :: "string \<Rightarrow> string \<Rightarrow> bool" where
  "endswith s suf = suffix suf s"

definition contains :: "string \<Rightarrow> string \<Rightarrow> bool" where
  "contains s sub = sublist sub s"

definition digit_char :: "nat \<Rightarrow> char" where
  "digit_char d = ''0123456789'' ! d"

fun digits10 :: "nat \<Rightarrow> string" where
  "digits10 n = (if n < 10 then [digit_char n] else digits10 (n div 10) @ [digit_char (n mod 10)])"

declare digits10.simps [simp del]

definition str_int :: "int \<Rightarrow> string" where
  "str_int n = (if n < 0 then CHR ''-'' # digits10 (nat (- n)) else digits10 (nat n))"

fun str_of :: "val \<Rightarrow> string" where
  "str_of (IntV n) = str_int n"
| "str_of (StrV s) = s"
| "str_of (TimeV s) = s"

text \<open>
  \<open>100 * geo_cd\<close>: integer multiplication on an integer, repetition on a string,
  \<open>TypeError\<close> on a timestamp.
\<close>

fun mul100 :: "val \<Rightarrow> error + val" where
  "mul100 (IntV n) = Inr (IntV (100 * n))"
| "mul100 (StrV s) = Inr (StrV (concat (replicate 100 s)))"
| "mul100 (TimeV s) = Inl TypeError"

text \<open>\<open>Series.apply\<close>: the function is applied row by row; the first exception propagates.\<close>

fun apply_series :: "(val \<Rightarrow> error + val) \<Rightarrow> series \<Rightarrow> error + series" where
  "apply_series f [] = Inr []"
| "apply_series f (x # xs) =
     (case f x of
        Inl e \<Rightarrow> Inl e
      | Inr y \<Rightarrow> (case apply_series f xs of Inl e \<Rightarrow> Inl e | Inr ys \<Rightarrow> Inr (y # ys)))"

text \<open>
  Modelled from the spec: \<open>zfill\<close> is called by \<open>cast_dataframe\<close> and defined nowhere in
  \<open>athena_table.py\<close>. The spec: convert the value to its decimal string form, left-pad
  with \<open>"0"\<close> characters until the string reaches the target width; values already at or
  beyond the width are left unchanged, never truncated.
\<close>

definition zfill :: "val \<Rightarrow> nat \<Rightarrow> val" where
  "zfill v width = StrV (replicate (width - length (str_of v)) CHR ''0'' @ str_of v)"

subsection \<open>The statements of the loop body\<close>

text \<open>\<open>frame[col] = f(frame[col])\<close>, where \<open>f\<close> may raise.\<close>

definition assign :: "string \<Rightarrow> (series \<Rightarrow> error + series) \<Rightarrow> frame \<Rightarrow> outcome" where
  "assign col f frame =
     (case getitem frame col of
        None \<Rightarrow> Raised KeyError frame
      | Some xs \<Rightarrow> (case f xs of Inl e \<Rightarrow> Raised e frame | Inr ys \<Rightarrow> Returned (setitem col ys frame)))"

text \<open>Sequencing: a statement after a raise is not executed.\<close>

fun and_then :: "outcome \<Rightarrow> (frame \<Rightarrow> outcome) \<Rightarrow> outcome" where
  "and_then (Returned frame) k = k frame"
| "and_then (Raised e frame) k = Raised e frame"

text \<open>\<open>if cond: stmt\<close>.\<close>

definition guarded :: "bool \<Rightarrow> (frame \<Rightarrow> outcome) \<Rightarrow> frame \<Rightarrow> outcome" where
  "guarded cond stmt frame = (if cond then stmt frame else Returned frame)"

definition raising :: "error \<Rightarrow> 'a option \<Rightarrow> error + 'a" where
  "raising e r = (case r of None \<Rightarrow> Inl e | Some y \<Rightarrow> Inr y)"

text \<open>A block of statements, executed in order.\<close>

fun run :: "(frame \<Rightarrow> outcome) list \<Rightarrow> frame \<Rightarrow> outcome" where
  "run [] frame = Returned frame"
| "run (stmt # stmts) frame = and_then (stmt frame) (run stmts)"

text \<open>The body of the \<open>for column in ...\<close> loop, lines 49 to 90, one entry per statement.\<close>

definition cast_column :: "env \<Rightarrow> column \<Rightarrow> frame \<Rightarrow> outcome" where
  "cast_column env column frame =
     (let col = Name column in
      run
       [guarded (endswith col ''date'' \<or> endswith col ''_dt'' \<or> endswith col ''_ts''
                 \<or> endswith col ''_date_time'' \<or> endswith col ''_timestamp'')
          (assign col (\<lambda>xs. raising ParseError (to_datetime env xs))),
        guarded (contains col ''zip_cd'' \<or> contains col ''cbsa_cd'')
          (assign col (apply_series (\<lambda>geo_cd. Inr (zfill geo_cd 5)))),
        guarded (contains col ''cnty_cd'')
          (assign col (apply_series (\<lambda>geo_cd. Inr (zfill geo_cd 3)))),
        guarded (contains col ''sale_regn_cd'')
          (assign col (apply_series (\<lambda>geo_cd. Inr (zfill geo_cd 2)))),
        guarded (contains col ''prim_msa_cd'')
          (assign col (apply_series (\<lambda>geo_cd. Inr (zfill geo_cd 4)))),
        guarded (contains col ''prim_census_tract_cd'')
          (assign col (apply_series (\<lambda>geo_cd.
             case mul100 geo_cd of Inl e \<Rightarrow> Inl e | Inr v \<Rightarrow> Inr (zfill v 6)))),
        guarded (contains col ''customer_id'' \<or> contains col ''_cust_id'')
          (assign col (apply_series (\<lambda>customer_id. Inr (zfill customer_id 10)))),
        guarded (contains col ''lnprps_cd'' \<or> contains col ''uw_desgntn_cd'')
          (assign col (apply_series (\<lambda>unk_cd.
             if unk_cd = StrV ''UNK'' then Inr unk_cd else Inr (zfill unk_cd 2)))),
        assign (Name column)
          (\<lambda>xs. raising TypeCoercionError (cast_series_type env xs (Type column)))]
       frame)"

text \<open>
  \<open>cast_dataframe(self, frame)\<close>; the schema is the column list of the table's glue
  definition. Entries whose name is not a column of the frame are passed over.
\<close>

fun cast_dataframe :: "env \<Rightarrow> column list \<Rightarrow> frame \<Rightarrow> outcome" where
  "cast_dataframe env [] frame = Returned frame"
| "cast_dataframe env (column # rest) frame =
     (if Name column \<in> set (columns frame)
      then and_then (cast_column env column frame) (cast_dataframe env rest)
      else cast_dataframe env rest frame)"

subsection \<open>Concrete helpers for running the model\<close>

text \<open>
  Modelled from the spec: \<open>pandas.to_datetime\<close> is a library call. This stand-in parses
  every value as a calendar date and fails when one value cannot be parsed. It covers
  typed timestamps (kept) and strings of the form \<open>YYYY-MM-DD\<close>; every other value is
  rejected.
\<close>

definition is_digit :: "char \<Rightarrow> bool" where
  "is_digit c = (c \<in> set ''0123456789'')"

fun parse_date :: "val \<Rightarrow> val option" where
  "parse_date (TimeV s) = Some (TimeV s)"
| "parse_date (StrV s) =
     (if length s = 10 \<and> list_all is_digit (take 4 s) \<and> s ! 4 = CHR ''-''
         \<and> list_all is_digit (take 2 (drop 5 s)) \<and> s ! 7 = CHR ''-''
         \<and> list_all is_digit (drop 8 s)
      then Some (TimeV (s @ '' 00:00:00'')) else None)"
| "parse_date (IntV n) = None"

definition to_datetime_iso :: "series \<Rightarrow> series option" where
  "to_datetime_iso xs = those (map parse_date xs)"

text \<open>
  Modelled from the spec: \<open>cast_series_type\<close> is called by \<open>cast_dataframe\<close> and defined
  nowhere in \<open>athena_table.py\<close>. The spec: cast the column to the schema's declared type;
  a malformed value for the requested type signals \<open>TypeCoercionError\<close>. This stand-in
  knows three catalog types: \<open>string\<close> (the string form of every value), \<open>bigint\<close>
  (integers, and strings of decimal digits) and \<open>timestamp\<close> (typed timestamps).
\<close>

definition digit_val :: "char \<Rightarrow> nat" where
  "digit_val c = length (takeWhile (\<lambda>d. d \<noteq> c) ''0123456789'')"

definition read_nat :: "string \<Rightarrow> nat" where
  "read_nat s = foldl (\<lambda>acc c. 10 * acc + digit_val c) 0 s"

fun cast_value :: "string \<Rightarrow> val \<Rightarrow> val option" where
  "cast_value t v =
     (if t = ''string'' then Some (StrV (str_of v))
      else if t = ''bigint'' then
        (case v of
           IntV n \<Rightarrow> Some (IntV n)
         | StrV s \<Rightarrow> if s \<noteq> [] \<and> list_all is_digit s then Some (IntV (int (read_nat s))) else None
         | TimeV s \<Rightarrow> None)
      else if t = ''timestamp'' then
        (case v of TimeV s \<Rightarrow> Some (TimeV s) | _ \<Rightarrow> None)
      else None)"

definition cast_series_basic :: "series \<Rightarrow> string \<Rightarrow> series option" where
  "cast_series_basic xs t = those (map (cast_value t) xs)"

definition basic_env :: env where
  "basic_env = \<lparr>to_datetime = to_datetime_iso, cast_series_type = cast_series_basic\<rparr>"

section \<open>Derived notions used in the proofs\<close>

text \<open>The frame the caller holds after the call, whether it returned or raised.\<close>

fun frame_of :: "outcome \<Rightarrow> frame" where
  "frame_of (Returned frame) = frame"
| "frame_of (Raised e frame) = frame"

text \<open>
  Every statement of the loop body reads and writes the one column \<open>frame[col]\<close>, so the
  body can be followed on that series alone. A step is a guard and a series function;
  on a raise the result carries the series last stored.
\<close>

fun series_run :: "(bool \<times> (series \<Rightarrow> error + series)) list \<Rightarrow> series \<Rightarrow> (error \<times> series) + series" where
  "series_run [] xs = Inr xs"
| "series_run ((b, f) # steps) xs =
     (if b then (case f xs of Inl e \<Rightarrow> Inl (e, xs) | Inr ys \<Rightarrow> series_run steps ys)
      else series_run steps xs)"

definition after_steps :: "string \<Rightarrow> frame \<Rightarrow> (error \<times> series) + series \<Rightarrow> outcome" where
  "after_steps col fr r =
     (case r of Inl (e, zs) \<Rightarrow> Raised e (setitem col zs fr) | Inr ys \<Rightarrow> Returned (setitem col ys fr))"

text \<open>The guard of the first statement, and the series it leaves in the column.\<close>

definition temporal :: "string \<Rightarrow> bool" where
  "temporal col \<longleftrightarrow> endswith col ''date'' \<or> endswith col ''_dt'' \<or> endswith col ''_ts''
      \<or> endswith col ''_date_time'' \<or> endswith col ''_timestamp''"

definition parsed :: "env \<Rightarrow> string \<Rightarrow> series \<Rightarrow> series option" where
  "parsed env col xs = (if temporal col then to_datetime env xs else Some xs)"

text \<open>The seven padding statements and the whole body, as steps on the series.\<close>

definition pad_steps :: "string \<Rightarrow> (bool \<times> (series \<Rightarrow> error + series)) list" where
  "pad_steps col =
     [(contains col ''zip_cd'' \<or> contains col ''cbsa_cd'', apply_series (\<lambda>geo_cd. Inr (zfill geo_cd 5))),
      (contains col ''cnty_cd'', apply_series (\<lambda>geo_cd. Inr (zfill geo_cd 3))),
      (contains col ''sale_regn_cd'', apply_series (\<lambda>geo_cd. Inr (zfill geo_cd 2))),
      (contains col ''prim_msa_cd'', apply_series (\<lambda>geo_cd. Inr (zfill geo_cd 4))),
      (contains col ''prim_census_tract_cd'',
         apply_series (\<lambda>geo_cd. case mul100 geo_cd of Inl e \<Rightarrow> Inl e | Inr v \<Rightarrow> Inr (zfill v 6))),
      (contains col ''customer_id'' \<or> contains col ''_cust_id'',
         apply_series (\<lambda>customer_id. Inr (zfill customer_id 10))),
      (contains col ''lnprps_cd'' \<or> contains col ''uw_desgntn_cd'',
         apply_series (\<lambda>unk_cd. if unk_cd = StrV ''UNK'' then Inr unk_cd else Inr (zfill unk_cd 2)))]"

definition column_steps :: "env \<Rightarrow> column \<Rightarrow> (bool \<times> (series \<Rightarrow> error + series)) list" where
  "column_steps env column =
     (temporal (Name column), \<lambda>xs. raising ParseError (to_datetime env xs))
     # pad_steps (Name column)
     @ [(True, \<lambda>xs. raising TypeCoercionError (cast_series_type env xs (Type column)))]"

subsection \<open>The padding table of the specification\<close>

text \<open>
  The specification gives the padding rules as an ordered table of name substrings,
  target width and special case, and says that every rule whose substring occurs in the
  column name is applied, in table order, each to the output of the one before. These
  definitions follow that wording; they are compared with \<open>cast_column\<close> below.
\<close>

datatype special = Plain | Times100 | KeepUNK

type_synonym rule = "string list \<times> nat \<times> special"

definition padding_table :: "rule list" where
  "padding_table =
     [([''zip_cd'', ''cbsa_cd''], 5, Plain),
      ([''cnty_cd''], 3, Plain),
      ([''sale_regn_cd''], 2, Plain),
      ([''prim_msa_cd''], 4, Plain),
      ([''prim_census_tract_cd''], 6, Times100),
      ([''customer_id'', ''_cust_id''], 10, Plain),
      ([''lnprps_cd'', ''uw_desgntn_cd''], 2, KeepUNK)]"

fun matches :: "string \<Rightarrow> rule \<Rightarrow> bool" where
  "matches col (subs, width, sp) = list_ex (contains col) subs"

fun rule_transform :: "rule \<Rightarrow> val \<Rightarrow> error + val" where
  "rule_transform (subs, width, Plain) v = Inr (zfill v width)"
| "rule_transform (subs, width, Times100) v =
     (case mul100 v of Inl e \<Rightarrow> Inl e | Inr v' \<Rightarrow> Inr (zfill v' width))"
| "rule_transform (subs, width, KeepUNK) v =
     (if v = StrV ''UNK'' then Inr v else Inr (zfill v width))"

fun apply_rules :: "rule list \<Rightarrow> series \<Rightarrow> error + series" where
  "apply_rules [] xs = Inr xs"
| "apply_rules (r # rs) xs =
     (case apply_series (rule_transform r) xs of
        Inl e \<Rightarrow> Inl e
      | Inr ys \<Rightarrow> apply_rules rs ys)"

definition matching_rules :: "string \<Rightarrow> rule list" where
  "matching_rules col = filter (matches col) padding_table"

text \<open>
  The width a column is padded to when several rules of the table match its name: the
  largest of their widths (padding to one width and then to another pads to the larger).
\<close>

definition rule_width :: "rule \<Rightarrow> nat" where
  "rule_width r = fst (snd r)"

definition pad_width :: "string \<Rightarrow> nat" where
  "pad_width col = foldr max (map rule_width (matching_rules col)) 0"

subsection \<open>Helpers that are stable on their own output\<close>

text \<open>
  Whether a second pass changes a column depends on the two helpers, which are
  parameters. \<open>stable_entry\<close> states, for one schema entry, what is asked of them: the name
  does not contain \<open>prim_census_tract_cd\<close>; a padded column is not temporal and is cast to
  a type that returns a column of strings unchanged; for a temporal column, parsing and
  casting the result of a cast gives that result back; for any other column the cast is
  idempotent.
\<close>

fun is_str :: "val \<Rightarrow> bool" where
  "is_str (StrV s) = True"
| "is_str v = False"

definition stable_entry :: "env \<Rightarrow> column \<Rightarrow> bool" where
  "stable_entry env column \<longleftrightarrow>
     \<not> contains (Name column) ''prim_census_tract_cd'' \<and>
     (if matching_rules (Name column) \<noteq> [] then
        \<not> temporal (Name column)
        \<and> (\<forall>zs. list_all is_str zs \<longrightarrow> cast_series_type env zs (Type column) = Some zs)
      else if temporal (Name column) then
        (\<forall>xs ys. cast_series_type env xs (Type column) = Some ys \<longrightarrow>
           (\<exists>zs. to_datetime env ys = Some zs \<and> cast_series_type env zs (Type column) = Some ys))
      else
        (\<forall>xs ys. cast_series_type env xs (Type column) = Some ys \<longrightarrow>
           cast_series_type env ys (Type column) = Some ys))"

subsection \<open>The image of one row\<close>

text \<open>
  When the two helpers work value by value (\<open>P\<close> for the parse, \<open>K t\<close> for the cast to
  type \<open>t\<close>), what the loop does to a column is a function of the single value:
  \<open>entry_value\<close> for one schema entry, \<open>row_image\<close> for the entries of the schema that name
  the column, in schema order. \<open>rule_value\<close> is the value a padding rule yields where it
  does not raise. \<open>parse_or_keep\<close> and \<open>cast_or_keep\<close> are these value functions for the
  concrete helpers above.
\<close>

fun rule_value :: "rule \<Rightarrow> val \<Rightarrow> val" where
  "rule_value r v = (case rule_transform r v of Inl e \<Rightarrow> v | Inr y \<Rightarrow> y)"

definition padded_value :: "string \<Rightarrow> val \<Rightarrow> val" where
  "padded_value col v = foldl (\<lambda>v r. rule_value r v) v (matching_rules col)"

definition entry_value :: "(val \<Rightarrow> val) \<Rightarrow> (string \<Rightarrow> val \<Rightarrow> val) \<Rightarrow> column \<Rightarrow> val \<Rightarrow> val" where
  "entry_value P K entry v =
     K (Type entry) (padded_value (Name entry) (if temporal (Name entry) then P v else v))"

fun row_image :: "(val \<Rightarrow> val) \<Rightarrow> (string \<Rightarrow> val \<Rightarrow> val) \<Rightarrow> column list \<Rightarrow> string \<Rightarrow> val \<Rightarrow> val" where
  "row_image P K [] c v = v"
| "row_image P K (entry # rest) c v =
     row_image P K rest c (if Name entry = c then entry_value P K entry v else v)"

definition parse_or_keep :: "val \<Rightarrow> val" where
  "parse_or_keep v = (case parse_date v of None \<Rightarrow> v | Some y \<Rightarrow> y)"

definition cast_or_keep :: "string \<Rightarrow> val \<Rightarrow> val" where
  "cast_or_keep t v = (case cast_value t v of None \<Rightarrow> v | Some y \<Rightarrow> y)"

section \<open>Frames and statements\<close>

lemma getitem_setitem: "getitem (setitem c ys fr) c' = (if c' = c then Some ys else getitem fr c')"
  by (simp add: getitem_def setitem_def update_conv')

lemma in_columns_iff: "c \<in> set (columns fr) \<longleftrightarrow> getitem fr c \<noteq> None"
  by (simp add: columns_def getitem_def map_of_eq_None_iff)

lemma columns_setitem: "c \<in> set (columns fr) \<Longrightarrow> columns (setitem c ys fr) = columns fr"
  by (simp add: columns_def setitem_def update_keys)

lemma setitem_same: "getitem fr c = Some ys \<Longrightarrow> setitem c ys fr = fr"
  by (simp add: getitem_def setitem_def update_triv)

lemma setitem_setitem: "setitem c ys (setitem c xs fr) = setitem c ys fr"
  by (simp add: setitem_def)

lemma lengths_setitem:
  "getitem fr c = Some xs \<Longrightarrow> length ys = length xs \<Longrightarrow>
   map (\<lambda>p. length (snd p)) (setitem c ys fr) = map (\<lambda>p. length (snd p)) fr"
  unfolding getitem_def setitem_def
  by (induction fr) (auto split: if_splits)

lemma run_steps:
  "getitem fr col = Some xs \<Longrightarrow>
   run (map (\<lambda>(b, f). guarded b (assign col f)) steps) fr = after_steps col fr (series_run steps xs)"
proof (induction steps arbitrary: fr xs)
  case Nil
  then show ?case by (simp add: after_steps_def setitem_same)
next
  case (Cons step steps)
  obtain b f where step: "step = (b, f)" by (cases step)
  show ?case
  proof (cases b)
    case False
    with Cons step show ?thesis by (simp add: guarded_def)
  next
    case True
    show ?thesis
    proof (cases "f xs")
      case (Inl e)
      with True step Cons.prems show ?thesis
        by (simp add: guarded_def assign_def after_steps_def setitem_same)
    next
      case (Inr ys)
      have "getitem (setitem col ys fr) col = Some ys" by (simp add: getitem_setitem)
      from Cons.IH[OF this] True step Cons.prems Inr show ?thesis
        by (simp add: guarded_def assign_def after_steps_def setitem_setitem split: sum.splits prod.splits)
    qed
  qed
qed

lemma guarded_True: "guarded True stmt = stmt"
  by (simp add: guarded_def fun_eq_iff)

lemma cast_column_series:
  assumes "getitem fr (Name column) = Some xs"
  shows "cast_column env column fr = after_steps (Name column) fr (series_run (column_steps env column) xs)"
proof -
  have "cast_column env column fr =
        run (map (\<lambda>(b, f). guarded b (assign (Name column) f)) (column_steps env column)) fr"
    by (simp add: cast_column_def column_steps_def pad_steps_def temporal_def guarded_True Let_def)
  then show ?thesis using run_steps[OF assms] by simp
qed

section \<open>The loop body on one series\<close>

lemma series_run_append:
  "series_run (as @ bs) xs =
     (case series_run as xs of Inl p \<Rightarrow> Inl p | Inr ys \<Rightarrow> series_run bs ys)"
  by (induction as arbitrary: xs) (auto split: sum.splits)

lemma series_run_rules:
  "map_sum fst id (series_run (map (\<lambda>r. (matches col r, apply_series (rule_transform r))) rs) xs)
     = apply_rules (filter (matches col) rs) xs"
  by (induction rs arbitrary: xs) (auto split: sum.splits)

lemma pad_steps_table:
  "pad_steps col = map (\<lambda>r. (matches col r, apply_series (rule_transform r))) padding_table"
proof -
  have p: "rule_transform (subs, w, Plain) = (\<lambda>v. Inr (zfill v w))" for subs w
    by (rule ext) simp
  have t: "rule_transform (subs, w, Times100) =
             (\<lambda>v. case mul100 v of Inl e \<Rightarrow> Inl e | Inr v' \<Rightarrow> Inr (zfill v' w))" for subs w
    by (rule ext) simp
  have k: "rule_transform (subs, w, KeepUNK) =
             (\<lambda>v. if v = StrV ''UNK'' then Inr v else Inr (zfill v w))" for subs w
    by (rule ext) simp
  show ?thesis
    by (simp add: pad_steps_def padding_table_def p t k)
qed

lemma pad_steps_rules:
  "map_sum fst id (series_run (pad_steps col) xs) = apply_rules (matching_rules col) xs"
  by (simp add: pad_steps_table matching_rules_def series_run_rules)

lemma pad_steps_Inr:
  "series_run (pad_steps col) xs = Inr ys \<longleftrightarrow> apply_rules (matching_rules col) xs = Inr ys"
  using pad_steps_rules[of col xs] by (cases "series_run (pad_steps col) xs") auto

lemma pad_steps_Inl:
  "apply_rules (matching_rules col) xs = Inl e \<Longrightarrow> \<exists>zs. series_run (pad_steps col) xs = Inl (e, zs)"
  using pad_steps_rules[of col xs] by (cases "series_run (pad_steps col) xs") auto

lemma column_steps_run:
  "series_run (column_steps env column) xs =
     (case parsed env (Name column) xs of
        None \<Rightarrow> Inl (ParseError, xs)
      | Some xs1 \<Rightarrow>
          (case series_run (pad_steps (Name column)) xs1 of
             Inl p \<Rightarrow> Inl p
           | Inr xs2 \<Rightarrow>
               (case cast_series_type env xs2 (Type column) of
                  None \<Rightarrow> Inl (TypeCoercionError, xs2)
                | Some ys \<Rightarrow> Inr ys)))"
  by (auto simp: column_steps_def parsed_def series_run_append raising_def
           split: option.splits sum.splits)


lemma cast_column_rule_error:
  assumes "getitem fr (Name column) = Some xs" and "parsed env (Name column) xs = Some xs1"
    and "apply_rules (matching_rules (Name column)) xs1 = Inl e"
  shows "\<exists>zs. cast_column env column fr = Raised e (setitem (Name column) zs fr)"
proof -
  from pad_steps_Inl[OF assms(3)] obtain zs
    where "series_run (pad_steps (Name column)) xs1 = Inl (e, zs)" ..
  with assms(1,2) have "cast_column env column fr = Raised e (setitem (Name column) zs fr)"
    by (simp add: cast_column_series column_steps_run after_steps_def)
  then show ?thesis by blast
qed

lemma cast_column_cast:
  assumes "getitem fr (Name column) = Some xs" and "parsed env (Name column) xs = Some xs1"
    and "apply_rules (matching_rules (Name column)) xs1 = Inr xs2"
  shows "cast_column env column fr =
           (case cast_series_type env xs2 (Type column) of
              None \<Rightarrow> Raised TypeCoercionError (setitem (Name column) xs2 fr)
            | Some ys \<Rightarrow> Returned (setitem (Name column) ys fr))"
proof -
  from assms(3) have "series_run (pad_steps (Name column)) xs1 = Inr xs2"
    by (simp add: pad_steps_Inr)
  with assms(1,2) show ?thesis
    by (simp add: cast_column_series column_steps_run after_steps_def split: option.splits)
qed

lemma cast_column_Returned:
  assumes "getitem fr (Name column) = Some xs" and "cast_column env column fr = Returned fr'"
  shows "\<exists>xs1 xs2 ys. parsed env (Name column) xs = Some xs1
           \<and> apply_rules (matching_rules (Name column)) xs1 = Inr xs2
           \<and> cast_series_type env xs2 (Type column) = Some ys
           \<and> fr' = setitem (Name column) ys fr"
  using assms
  by (auto simp: cast_column_series column_steps_run after_steps_def pad_steps_Inr[symmetric]
           split: option.splits sum.splits)

section \<open>What a call leaves in the frame\<close>

lemma cast_column_frame:
  assumes "getitem fr (Name column) = Some xs"
  shows "\<exists>zs. frame_of (cast_column env column fr) = setitem (Name column) zs fr"
  using assms
  by (cases "series_run (column_steps env column) xs")
     (auto simp: cast_column_series after_steps_def)

lemma cast_column_columns:
  assumes "Name column \<in> set (columns fr)"
  shows "columns (frame_of (cast_column env column fr)) = columns fr"
proof -
  from assms obtain xs where "getitem fr (Name column) = Some xs"
    by (auto simp: in_columns_iff)
  from cast_column_frame[OF this, of env] obtain zs
    where "frame_of (cast_column env column fr) = setitem (Name column) zs fr" ..
  with assms show ?thesis by (simp add: columns_setitem)
qed

lemma cast_column_other:
  assumes "Name column \<in> set (columns fr)" and "c \<noteq> Name column"
  shows "getitem (frame_of (cast_column env column fr)) c = getitem fr c"
proof -
  from assms obtain xs where "getitem fr (Name column) = Some xs"
    by (auto simp: in_columns_iff)
  from cast_column_frame[OF this, of env] obtain zs
    where "frame_of (cast_column env column fr) = setitem (Name column) zs fr" ..
  with assms(2) show ?thesis by (simp add: getitem_setitem)
qed

lemma frame_of_and_then:
  "frame_of (and_then r k) = (case r of Returned fr \<Rightarrow> frame_of (k fr) | Raised e fr \<Rightarrow> fr)"
  by (cases r) auto

lemma cast_dataframe_columns:
  "columns (frame_of (cast_dataframe env schema fr)) = columns fr"
proof (induction schema arbitrary: fr)
  case Nil
  show ?case by simp
next
  case (Cons column rest)
  show ?case
  proof (cases "Name column \<in> set (columns fr)")
    case False
    with Cons show ?thesis by simp
  next
    case True
    from cast_column_columns[OF True, of env] Cons.IH True show ?thesis
      by (cases "cast_column env column fr") (auto simp: frame_of_and_then)
  qed
qed

lemma cast_dataframe_other:
  "c \<notin> Name ` set schema \<Longrightarrow> getitem (frame_of (cast_dataframe env schema fr)) c = getitem fr c"
proof (induction schema arbitrary: fr)
  case Nil
  show ?case by simp
next
  case (Cons column rest)
  then have ne: "c \<noteq> Name column" and rest: "c \<notin> Name ` set rest" by auto
  show ?case
  proof (cases "Name column \<in> set (columns fr)")
    case False
    with Cons.IH[OF rest] show ?thesis by simp
  next
    case True
    from cast_column_other[OF True ne, of env] Cons.IH[OF rest] True show ?thesis
      by (cases "cast_column env column fr") (auto simp: frame_of_and_then)
  qed
qed

lemma cast_dataframe_absent:
  "\<forall>column\<in>set schema. Name column \<notin> set (columns fr) \<Longrightarrow> cast_dataframe env schema fr = Returned fr"
  by (induction schema) auto

lemma cast_dataframe_filter:
  "cast_dataframe env schema fr =
   cast_dataframe env (filter (\<lambda>column. Name column \<in> set (columns fr)) schema) fr"
proof (induction schema arbitrary: fr)
  case Nil
  show ?case by simp
next
  case (Cons column rest)
  show ?case
  proof (cases "Name column \<in> set (columns fr)")
    case False
    with Cons show ?thesis by simp
  next
    case True
    show ?thesis
    proof (cases "cast_column env column fr")
      case (Raised e fr')
      with True show ?thesis by simp
    next
      case (Returned fr')
      with cast_column_columns[OF True, of env] have "columns fr' = columns fr" by simp
      with Cons.IH[of fr'] True Returned show ?thesis by simp
    qed
  qed
qed

lemma cast_dataframe_Raised:
  "cast_dataframe env schema frame = Raised e fr \<Longrightarrow>
   \<exists>pre column post fr0.
      schema = pre @ column # post
    \<and> cast_dataframe env pre frame = Returned fr0
    \<and> Name column \<in> set (columns fr0)
    \<and> cast_column env column fr0 = Raised e fr"
proof (induction schema arbitrary: frame)
  case Nil
  then show ?case by simp
next
  case (Cons column rest)
  show ?case
  proof (cases "Name column \<in> set (columns frame)")
    case False
    with Cons.prems have "cast_dataframe env rest frame = Raised e fr" by simp
    from Cons.IH[OF this] obtain pre c post fr0 where
      "rest = pre @ c # post" "cast_dataframe env pre frame = Returned fr0"
      "Name c \<in> set (columns fr0)" "cast_column env c fr0 = Raised e fr"
      by blast
    with False have "column # rest = (column # pre) @ c # post
      \<and> cast_dataframe env (column # pre) frame = Returned fr0
      \<and> Name c \<in> set (columns fr0) \<and> cast_column env c fr0 = Raised e fr"
      by simp
    then show ?thesis by blast
  next
    case True
    show ?thesis
    proof (cases "cast_column env column frame")
      case (Raised e' fr')
      with True Cons.prems have "e' = e" "fr' = fr" by auto
      with Raised True have "column # rest = [] @ column # rest
        \<and> cast_dataframe env [] frame = Returned frame
        \<and> Name column \<in> set (columns frame) \<and> cast_column env column frame = Raised e fr"
        by simp
      then show ?thesis by blast
    next
      case (Returned fr1)
      with True Cons.prems have "cast_dataframe env rest fr1 = Raised e fr" by simp
      from Cons.IH[OF this] obtain pre c post fr0 where
        "rest = pre @ c # post" "cast_dataframe env pre fr1 = Returned fr0"
        "Name c \<in> set (columns fr0)" "cast_column env c fr0 = Raised e fr"
        by blast
      with True Returned have "column # rest = (column # pre) @ c # post
        \<and> cast_dataframe env (column # pre) frame = Returned fr0
        \<and> Name c \<in> set (columns fr0) \<and> cast_column env c fr0 = Raised e fr"
        by simp
      then show ?thesis by blast
    qed
  qed
qed

lemma temporal_iff:
  "temporal col \<longleftrightarrow> list_ex (endswith col) [''date'', ''_dt'', ''_ts'', ''_date_time'', ''_timestamp'']"
  by (simp add: temporal_def)

lemma cast_dataframe_Cons_cast:
  assumes "getitem frame (Name column) = Some xs" and "parsed env (Name column) xs = Some xs1"
    and "apply_rules (matching_rules (Name column)) xs1 = Inr xs2"
  shows "cast_dataframe env (column # rest) frame =
           (case cast_series_type env xs2 (Type column) of
              None \<Rightarrow> Raised TypeCoercionError (setitem (Name column) xs2 frame)
            | Some ys \<Rightarrow> cast_dataframe env rest (setitem (Name column) ys frame))"
proof -
  from assms(1) have "Name column \<in> set (columns frame)" by (simp add: in_columns_iff)
  then show ?thesis
    by (simp add: cast_column_cast[OF assms] split: option.splits)
qed


lemma cast_dataframe_append:
  "cast_dataframe env (pre @ post) fr = and_then (cast_dataframe env pre fr) (cast_dataframe env post)"
proof (induction pre arbitrary: fr)
  case Nil
  show ?case by simp
next
  case (Cons c pre)
  show ?case
  proof (cases "Name c \<in> set (columns fr)")
    case False
    with Cons show ?thesis by simp
  next
    case True
    with Cons show ?thesis
      by (cases "cast_column env c fr") auto
  qed
qed

lemma cast_dataframe_casts:
  assumes "cast_dataframe env schema fr = Returned fr'"
    and "entry \<in> set schema" and "Name entry \<in> set (columns fr)"
  shows "\<exists>xs ys. cast_series_type env xs (Type entry) = Some ys"
  using assms
proof (induction schema arbitrary: fr)
  case Nil
  then show ?case by simp
next
  case (Cons c rest)
  show ?case
  proof (cases "Name c \<in> set (columns fr)")
    case False
    with Cons.prems have "cast_dataframe env rest fr = Returned fr'" and "entry \<in> set rest"
      by auto
    from Cons.IH[OF this Cons.prems(3)] show ?thesis .
  next
    case True
    then obtain xs where xs: "getitem fr (Name c) = Some xs"
      by (auto simp: in_columns_iff)
    from Cons.prems(1) True obtain fr1 where
      c1: "cast_column env c fr = Returned fr1" and
      r1: "cast_dataframe env rest fr1 = Returned fr'"
      by (cases "cast_column env c fr") auto
    show ?thesis
    proof (cases "entry = c")
      case True
      with cast_column_Returned[OF xs c1] show ?thesis by blast
    next
      case False
      with Cons.prems(2) have "entry \<in> set rest" by simp
      moreover have "columns fr1 = columns fr"
        using cast_column_columns[OF True, of env] c1 by simp
      with Cons.prems(3) have "Name entry \<in> set (columns fr1)" by simp
      ultimately show ?thesis using Cons.IH[OF r1] by blast
    qed
  qed
qed

section \<open>Padding\<close>

lemma zfill_zfill: "zfill (zfill v a) b = zfill v (max a b)"
proof -
  let ?n = "length (str_of v)"
  have "b - (a - ?n + ?n) + (a - ?n) = max a b - ?n" by arith
  then have "replicate (b - (a - ?n + ?n)) CHR ''0'' @ replicate (a - ?n) CHR ''0''
               = replicate (max a b - ?n) CHR ''0''"
    by (simp add: replicate_add[symmetric])
  then show ?thesis by (simp add: zfill_def)
qed

lemma zfill_shape:
  "\<exists>zeros. zfill v w = StrV (zeros @ str_of v) \<and> set zeros \<subseteq> {CHR ''0''}
      \<and> length (zeros @ str_of v) = max w (length (str_of v))"
proof -
  have "zfill v w = StrV (replicate (w - length (str_of v)) CHR ''0'' @ str_of v)
      \<and> set (replicate (w - length (str_of v)) CHR ''0'') \<subseteq> {CHR ''0''}
      \<and> length (replicate (w - length (str_of v)) CHR ''0'' @ str_of v) = max w (length (str_of v))"
    by (auto simp: zfill_def)
  then show ?thesis by blast
qed

lemma zfill_wide: "w \<le> length (str_of v) \<Longrightarrow> zfill v w = StrV (str_of v)"
  by (simp add: zfill_def)

lemma apply_series_total: "apply_series (\<lambda>v. Inr (g v)) xs = Inr (map g xs)"
  by (induction xs) auto

lemma apply_series_times100:
  "apply_series mul100 xs = Inr ms \<Longrightarrow>
   apply_series (rule_transform (subs, w, Times100)) xs = Inr (map (\<lambda>m. zfill m w) ms)"
  by (induction xs arbitrary: ms) (auto split: sum.splits)

lemma apply_series_keepunk:
  "apply_series (rule_transform (subs, w, KeepUNK)) xs
     = Inr (map (\<lambda>v. if v = StrV ''UNK'' then v else zfill v w) xs)"
  by (induction xs) auto

lemma apply_rules_zfill:
  assumes "\<forall>r\<in>set rs. rule_transform r = (\<lambda>v. Inr (zfill v (rule_width r)))"
  shows "apply_rules rs xs =
           Inr (if rs = [] then xs else map (\<lambda>v. zfill v (foldr max (map rule_width rs) 0)) xs)"
  using assms
proof (induction rs arbitrary: xs)
  case Nil
  show ?case by simp
next
  case (Cons r rs)
  then have r: "rule_transform r = (\<lambda>v. Inr (zfill v (rule_width r)))"
    and rs: "\<forall>r\<in>set rs. rule_transform r = (\<lambda>v. Inr (zfill v (rule_width r)))"
    by auto
  have step: "apply_series (rule_transform r) xs = Inr (map (\<lambda>v. zfill v (rule_width r)) xs)"
    by (simp add: r apply_series_total)
  show ?case
    by (simp add: step Cons.IH[OF rs] zfill_zfill o_def max.commute)
qed

lemma matching_rules_plain:
  assumes "\<not> contains col ''prim_census_tract_cd''" and "r \<in> set (matching_rules col)"
  shows "rule_transform r = (\<lambda>v. Inr (zfill v (rule_width r)))"
proof -
  have unk: "(if v = StrV ''UNK'' then Inr v else Inr (zfill v 2)) = Inr (zfill v 2)" for v
    by (simp add: zfill_def)
  from assms(2) have "r \<in> set padding_table" and m: "matches col r"
    by (simp_all add: matching_rules_def)
  then have "r \<in> {([''zip_cd'', ''cbsa_cd''], 5, Plain), ([''cnty_cd''], 3, Plain),
      ([''sale_regn_cd''], 2, Plain), ([''prim_msa_cd''], 4, Plain),
      ([''prim_census_tract_cd''], 6, Times100), ([''customer_id'', ''_cust_id''], 10, Plain),
      ([''lnprps_cd'', ''uw_desgntn_cd''], 2, KeepUNK)}"
    by (simp add: padding_table_def)
  with m assms(1) show ?thesis
    by (auto simp: rule_width_def fun_eq_iff unk)
qed

lemma matching_rules_zfill:
  assumes "\<not> contains col ''prim_census_tract_cd''" and "matching_rules col \<noteq> []"
  shows "apply_rules (matching_rules col) xs = Inr (map (\<lambda>v. zfill v (pad_width col)) xs)"
  using apply_rules_zfill[of "matching_rules col" xs] matching_rules_plain[OF assms(1)] assms(2)
  by (simp add: pad_width_def)

lemma foldr_max_ge: "r \<in> set rs \<Longrightarrow> rule_width r \<le> foldr max (map rule_width rs) 0"
  by (induction rs) (auto simp: max_def)

lemmas rule_eval = matching_rules_def padding_table_def pad_width_def rule_width_def

section \<open>A second pass over a normalized column\<close>

lemma column_steps_Inr:
  "series_run (column_steps env column) xs = Inr ys \<longleftrightarrow>
     (\<exists>xs1 xs2. parsed env (Name column) xs = Some xs1
        \<and> apply_rules (matching_rules (Name column)) xs1 = Inr xs2
        \<and> cast_series_type env xs2 (Type column) = Some ys)"
  by (auto simp: column_steps_run pad_steps_Inr[symmetric] split: option.splits sum.splits)

lemma list_all_zfill: "list_all is_str (map (\<lambda>v. zfill v w) xs)"
  by (simp add: list_all_iff zfill_def)

lemma column_steps_stable:
  assumes st: "stable_entry env column"
    and run: "series_run (column_steps env column) xs = Inr ys"
  shows "series_run (column_steps env column) ys = Inr ys"
proof -
  from run obtain xs1 xs2 where
    p: "parsed env (Name column) xs = Some xs1" and
    a: "apply_rules (matching_rules (Name column)) xs1 = Inr xs2" and
    k: "cast_series_type env xs2 (Type column) = Some ys"
    by (auto simp: column_steps_Inr)
  from st have nc: "\<not> contains (Name column) ''prim_census_tract_cd''"
    by (simp add: stable_entry_def)
  show ?thesis
  proof (cases "matching_rules (Name column) \<noteq> []")
    case True
    with st have nt: "\<not> temporal (Name column)"
      and keep: "\<forall>zs. list_all is_str zs \<longrightarrow> cast_series_type env zs (Type column) = Some zs"
      by (simp_all add: stable_entry_def)
    let ?pad = "\<lambda>v. zfill v (pad_width (Name column))"
    from a have xs2: "xs2 = map ?pad xs1"
      by (simp add: matching_rules_zfill[OF nc True])
    with keep k have ys: "ys = map ?pad xs1"
      by (simp add: list_all_zfill)
    have "map ?pad ys = ys"
      by (simp add: ys zfill_zfill)
    then have a': "apply_rules (matching_rules (Name column)) ys = Inr ys"
      by (simp add: matching_rules_zfill[OF nc True])
    have p': "parsed env (Name column) ys = Some ys"
      using nt by (simp add: parsed_def)
    have k': "cast_series_type env ys (Type column) = Some ys"
      using keep by (simp add: ys list_all_zfill)
    from p' a' k' show ?thesis by (auto simp: column_steps_Inr)
  next
    case False
    then have none: "matching_rules (Name column) = []" by simp
    with a have xs2: "xs2 = xs1" by simp
    show ?thesis
    proof (cases "temporal (Name column)")
      case True
      with st none have "\<forall>xs ys. cast_series_type env xs (Type column) = Some ys \<longrightarrow>
           (\<exists>zs. to_datetime env ys = Some zs \<and> cast_series_type env zs (Type column) = Some ys)"
        by (simp add: stable_entry_def)
      with k obtain zs where "to_datetime env ys = Some zs"
        and "cast_series_type env zs (Type column) = Some ys"
        by blast
      with True none show ?thesis
        by (auto simp: column_steps_Inr parsed_def)
    next
      case False
      with st none have "\<forall>xs ys. cast_series_type env xs (Type column) = Some ys \<longrightarrow>
           cast_series_type env ys (Type column) = Some ys"
        by (simp add: stable_entry_def)
      with k have "cast_series_type env ys (Type column) = Some ys" by blast
      with False none show ?thesis
        by (auto simp: column_steps_Inr parsed_def)
    qed
  qed
qed

lemma cast_column_Returned_series:
  assumes "getitem fr (Name column) = Some xs" and "cast_column env column fr = Returned fr'"
  shows "\<exists>ys. series_run (column_steps env column) xs = Inr ys \<and> fr' = setitem (Name column) ys fr"
  using assms
  by (cases "series_run (column_steps env column) xs")
     (auto simp: cast_column_series after_steps_def)

lemma cast_dataframe_column_result:
  assumes "distinct (map Name schema)"
    and "cast_dataframe env schema fr = Returned fr'"
    and "column \<in> set schema" and "Name column \<in> set (columns fr)"
  shows "\<exists>xs ys. series_run (column_steps env column) xs = Inr ys
            \<and> getitem fr' (Name column) = Some ys"
  using assms
proof (induction schema arbitrary: fr)
  case Nil
  then show ?case by simp
next
  case (Cons c rest)
  from Cons.prems(1) have d: "distinct (map Name rest)" and fresh: "Name c \<notin> Name ` set rest"
    by auto
  show ?case
  proof (cases "Name c \<in> set (columns fr)")
    case False
    with Cons.prems have "cast_dataframe env rest fr = Returned fr'" and "column \<in> set rest"
      by auto
    from Cons.IH[OF d this Cons.prems(4)] show ?thesis .
  next
    case True
    then obtain xs where xs: "getitem fr (Name c) = Some xs"
      by (auto simp: in_columns_iff)
    from Cons.prems(2) True obtain fr1 where
      c1: "cast_column env c fr = Returned fr1" and
      r1: "cast_dataframe env rest fr1 = Returned fr'"
      by (cases "cast_column env c fr") auto
    from cast_column_Returned_series[OF xs c1] obtain ys where
      ys: "series_run (column_steps env c) xs = Inr ys" and fr1: "fr1 = setitem (Name c) ys fr"
      by blast
    have cols: "columns fr1 = columns fr"
      using True by (simp add: fr1 columns_setitem)
    show ?thesis
    proof (cases "column = c")
      case True
      have "getitem fr' (Name c) = getitem fr1 (Name c)"
        using cast_dataframe_other[OF fresh, of env fr1] r1 by simp
      then have "getitem fr' (Name c) = Some ys"
        by (simp add: fr1 getitem_setitem)
      with ys True show ?thesis by blast
    next
      case False
      with Cons.prems(3) have "column \<in> set rest" by simp
      moreover from Cons.prems(4) cols have "Name column \<in> set (columns fr1)" by simp
      ultimately show ?thesis using Cons.IH[OF d r1] by blast
    qed
  qed
qed

lemma cast_dataframe_fixpoint:
  assumes "\<forall>column\<in>set schema. Name column \<in> set (columns fr) \<longrightarrow> cast_column env column fr = Returned fr"
  shows "cast_dataframe env schema fr = Returned fr"
  using assms by (induction schema) auto

section \<open>Properties of the concrete helpers\<close>

lemma those_map_Some:
  "those (map f xs) = Some ys \<Longrightarrow> (\<And>x y. f x = Some y \<Longrightarrow> g y = Some y) \<Longrightarrow>
   those (map g ys) = Some ys"
  by (induction xs arbitrary: ys) (auto split: option.splits)

lemma those_map_id: "(\<And>x. x \<in> set xs \<Longrightarrow> f x = Some x) \<Longrightarrow> those (map f xs) = Some xs"
  by (induction xs) auto

lemma basic_string_keeps: "list_all is_str zs \<Longrightarrow> cast_series_basic zs ''string'' = Some zs"
proof -
  assume a: "list_all is_str zs"
  have "cast_value ''string'' v = Some v" if "v \<in> set zs" for v
  proof -
    from that a have "is_str v" by (simp add: list_all_iff)
    then show ?thesis by (cases v) simp_all
  qed
  then show ?thesis
    unfolding cast_series_basic_def by (rule those_map_id)
qed

lemma basic_timestamp_roundtrip:
  assumes "cast_series_basic xs ''timestamp'' = Some ys"
  shows "to_datetime_iso ys = Some ys \<and> cast_series_basic ys ''timestamp'' = Some ys"
proof -
  have "parse_date y = Some y" if "cast_value ''timestamp'' x = Some y" for x y
    by (cases x) (use that in \<open>auto split: if_splits\<close>)
  moreover have "cast_value ''timestamp'' y = Some y" if "cast_value ''timestamp'' x = Some y" for x y
    by (cases x) (use that in \<open>auto split: if_splits\<close>)
  ultimately show ?thesis
    using assms unfolding cast_series_basic_def to_datetime_iso_def
    by (auto intro: those_map_Some)
qed

lemma basic_bigint_idem:
  assumes "cast_series_basic xs ''bigint'' = Some ys"
  shows "cast_series_basic ys ''bigint'' = Some ys"
proof -
  have "cast_value ''bigint'' y = Some y" if "cast_value ''bigint'' x = Some y" for x y
    by (cases x) (use that in \<open>auto split: if_splits\<close>)
  then show ?thesis
    using assms unfolding cast_series_basic_def
    by (auto intro: those_map_Some)
qed

section \<open>Evaluating the model on concrete frames\<close>

lemma replicate_numeral_eval: "replicate (numeral k) x = x # replicate (pred_numeral k) x"
  by (simp add: numeral_eq_Suc)

lemmas name_eval = contains_def endswith_def sublist_code suffix_to_prefix

lemmas value_eval = zfill_def str_int_def digits10.simps digit_char_def replicate_numeral_eval

lemmas frame_eval = cast_column_def guarded_def assign_def getitem_def setitem_def raising_def
  columns_def Let_def

lemmas basic_eval = basic_env_def to_datetime_iso_def cast_series_basic_def is_digit_def
  digit_val_def read_nat_def

section \<open>Columns matched by one rule, and the image of a row\<close>

lemma parsed_not_temporal: "\<not> temporal col \<Longrightarrow> parsed env col xs = Some xs"
  by (simp add: parsed_def)

lemma cast_dataframe_single_get:
  assumes "getitem frame (Name column) = Some xs" and "parsed env (Name column) xs = Some xs1"
    and "apply_rules (matching_rules (Name column)) xs1 = Inr xs2"
  shows "getitem (frame_of (cast_dataframe env [column] frame)) (Name column)
           = Some (case cast_series_type env xs2 (Type column) of None \<Rightarrow> xs2 | Some ys \<Rightarrow> ys)"
  using cast_dataframe_Cons_cast[OF assms, of "[]"]
  by (simp add: getitem_setitem split: option.splits)

lemma foldr_max_mem:
  "rs \<noteq> [] \<Longrightarrow> foldr max (map rule_width rs) 0 \<in> rule_width ` set rs"
proof (induction rs)
  case Nil
  then show ?case by simp
next
  case (Cons r rs)
  then show ?case
    by (cases "rs = []") (auto simp: max_def)
qed

lemma plain_rules_cast:
  assumes "getitem frame (Name column) = Some xs" and "\<not> temporal (Name column)"
    and "matching_rules (Name column) \<noteq> []"
    and "\<not> contains (Name column) ''prim_census_tract_cd''"
  shows "cast_dataframe env (column # rest) frame =
           (case cast_series_type env (map (\<lambda>v. zfill v (pad_width (Name column))) xs) (Type column) of
              None \<Rightarrow> Raised TypeCoercionError
                        (setitem (Name column) (map (\<lambda>v. zfill v (pad_width (Name column))) xs) frame)
            | Some ys \<Rightarrow> cast_dataframe env rest (setitem (Name column) ys frame))"
    and "getitem (frame_of (cast_dataframe env [column] frame)) (Name column)
           = Some (case cast_series_type env (map (\<lambda>v. zfill v (pad_width (Name column))) xs) (Type column) of
                     None \<Rightarrow> map (\<lambda>v. zfill v (pad_width (Name column))) xs
                   | Some ys \<Rightarrow> ys)"
  using cast_dataframe_Cons_cast[OF assms(1) parsed_not_temporal[OF assms(2)] matching_rules_zfill[OF assms(4,3)]]
    cast_dataframe_single_get[OF assms(1) parsed_not_temporal[OF assms(2)] matching_rules_zfill[OF assms(4,3)]]
  by simp_all

lemma only_census_rule:
  assumes "contains col ''prim_census_tract_cd''"
    and "\<not> list_ex (contains col) [''zip_cd'', ''cbsa_cd'', ''cnty_cd'', ''sale_regn_cd'',
            ''prim_msa_cd'', ''customer_id'', ''_cust_id'', ''lnprps_cd'', ''uw_desgntn_cd'']"
  shows "matching_rules col = [([''prim_census_tract_cd''], 6, Times100)]"
  using assms by (simp add: matching_rules_def padding_table_def)

lemma only_unk_rule:
  assumes "contains col ''lnprps_cd'' \<or> contains col ''uw_desgntn_cd''"
    and "\<not> list_ex (contains col) [''zip_cd'', ''cbsa_cd'', ''cnty_cd'', ''sale_regn_cd'',
            ''prim_msa_cd'', ''prim_census_tract_cd'', ''customer_id'', ''_cust_id'']"
  shows "matching_rules col = [([''lnprps_cd'', ''uw_desgntn_cd''], 2, KeepUNK)]"
  using assms by (simp add: matching_rules_def padding_table_def)

lemma mul100_ints: "apply_series mul100 (map IntV ns) = Inr (map (\<lambda>n. IntV (100 * n)) ns)"
  by (induction ns) auto

lemma census_rule_cast:
  assumes "getitem frame (Name column) = Some (map IntV ns)" and "\<not> temporal (Name column)"
    and "contains (Name column) ''prim_census_tract_cd''"
    and "\<not> list_ex (contains (Name column)) [''zip_cd'', ''cbsa_cd'', ''cnty_cd'', ''sale_regn_cd'',
            ''prim_msa_cd'', ''customer_id'', ''_cust_id'', ''lnprps_cd'', ''uw_desgntn_cd'']"
  shows "cast_dataframe env (column # rest) frame =
           (case cast_series_type env (map (\<lambda>n. zfill (IntV (100 * n)) 6) ns) (Type column) of
              None \<Rightarrow> Raised TypeCoercionError
                        (setitem (Name column) (map (\<lambda>n. zfill (IntV (100 * n)) 6) ns) frame)
            | Some ys \<Rightarrow> cast_dataframe env rest (setitem (Name column) ys frame))"
    and "getitem (frame_of (cast_dataframe env [column] frame)) (Name column)
           = Some (case cast_series_type env (map (\<lambda>n. zfill (IntV (100 * n)) 6) ns) (Type column) of
                     None \<Rightarrow> map (\<lambda>n. zfill (IntV (100 * n)) 6) ns
                   | Some ys \<Rightarrow> ys)"
proof -
  have "apply_rules (matching_rules (Name column)) (map IntV ns)
          = Inr (map (\<lambda>n. zfill (IntV (100 * n)) 6) ns)"
    by (simp add: only_census_rule[OF assms(3,4)] apply_series_times100[OF mul100_ints] o_def)
  note r = this
  show "cast_dataframe env (column # rest) frame =
           (case cast_series_type env (map (\<lambda>n. zfill (IntV (100 * n)) 6) ns) (Type column) of
              None \<Rightarrow> Raised TypeCoercionError
                        (setitem (Name column) (map (\<lambda>n. zfill (IntV (100 * n)) 6) ns) frame)
            | Some ys \<Rightarrow> cast_dataframe env rest (setitem (Name column) ys frame))"
    by (rule cast_dataframe_Cons_cast[OF assms(1) parsed_not_temporal[OF assms(2)] r])
  show "getitem (frame_of (cast_dataframe env [column] frame)) (Name column)
           = Some (case cast_series_type env (map (\<lambda>n. zfill (IntV (100 * n)) 6) ns) (Type column) of
                     None \<Rightarrow> map (\<lambda>n. zfill (IntV (100 * n)) 6) ns
                   | Some ys \<Rightarrow> ys)"
    by (rule cast_dataframe_single_get[OF assms(1) parsed_not_temporal[OF assms(2)] r])
qed

lemma unk_rule_cast:
  assumes "getitem frame (Name column) = Some xs" and "\<not> temporal (Name column)"
    and "contains (Name column) ''lnprps_cd'' \<or> contains (Name column) ''uw_desgntn_cd''"
    and "\<not> list_ex (contains (Name column)) [''zip_cd'', ''cbsa_cd'', ''cnty_cd'', ''sale_regn_cd'',
            ''prim_msa_cd'', ''prim_census_tract_cd'', ''customer_id'', ''_cust_id'']"
  shows "cast_dataframe env (column # rest) frame =
           (case cast_series_type env
                   (map (\<lambda>v. if v = StrV ''UNK'' then v else zfill v 2) xs) (Type column) of
              None \<Rightarrow> Raised TypeCoercionError
                        (setitem (Name column)
                           (map (\<lambda>v. if v = StrV ''UNK'' then v else zfill v 2) xs) frame)
            | Some ys \<Rightarrow> cast_dataframe env rest (setitem (Name column) ys frame))"
    and "getitem (frame_of (cast_dataframe env [column] frame)) (Name column)
           = Some (case cast_series_type env
                          (map (\<lambda>v. if v = StrV ''UNK'' then v else zfill v 2) xs) (Type column) of
                     None \<Rightarrow> map (\<lambda>v. if v = StrV ''UNK'' then v else zfill v 2) xs
                   | Some ys \<Rightarrow> ys)"
proof -
  have r: "apply_rules (matching_rules (Name column)) xs
          = Inr (map (\<lambda>v. if v = StrV ''UNK'' then v else zfill v 2) xs)"
    by (simp add: only_unk_rule[OF assms(3,4)] apply_series_keepunk)
  show "cast_dataframe env (column # rest) frame =
           (case cast_series_type env
                   (map (\<lambda>v. if v = StrV ''UNK'' then v else zfill v 2) xs) (Type column) of
              None \<Rightarrow> Raised TypeCoercionError
                        (setitem (Name column)
                           (map (\<lambda>v. if v = StrV ''UNK'' then v else zfill v 2) xs) frame)
            | Some ys \<Rightarrow> cast_dataframe env rest (setitem (Name column) ys frame))"
    by (rule cast_dataframe_Cons_cast[OF assms(1) parsed_not_temporal[OF assms(2)] r])
  show "getitem (frame_of (cast_dataframe env [column] frame)) (Name column)
           = Some (case cast_series_type env
                          (map (\<lambda>v. if v = StrV ''UNK'' then v else zfill v 2) xs) (Type column) of
                     None \<Rightarrow> map (\<lambda>v. if v = StrV ''UNK'' then v else zfill v 2) xs
                   | Some ys \<Rightarrow> ys)"
    by (rule cast_dataframe_single_get[OF assms(1) parsed_not_temporal[OF assms(2)] r])
qed

lemma sale_regn_not_temporal: "\<not> temporal ''sale_regn_cd''"
  by (simp add: temporal_def name_eval)

lemma sale_regn_rules: "matching_rules ''sale_regn_cd'' = [([''sale_regn_cd''], 2, Plain)]"
  by (simp add: matching_rules_def padding_table_def name_eval)

lemma zip_not_temporal: "\<not> temporal ''zip_cd''"
  by (simp add: temporal_def name_eval)

lemma zip_rules: "matching_rules ''zip_cd'' = [([''zip_cd'', ''cbsa_cd''], 5, Plain)]"
  by (simp add: matching_rules_def padding_table_def name_eval)

lemma apply_series_map:
  "apply_series f xs = Inr ys \<Longrightarrow> ys = map (\<lambda>v. case f v of Inl e \<Rightarrow> v | Inr y \<Rightarrow> y) xs"
  by (induction xs arbitrary: ys) (auto split: sum.splits)

lemma apply_rules_map:
  "apply_rules rs xs = Inr ys \<Longrightarrow> ys = map (\<lambda>v. foldl (\<lambda>v r. rule_value r v) v rs) xs"
proof (induction rs arbitrary: xs)
  case Nil
  then show ?case by simp
next
  case (Cons r rs)
  from Cons.prems obtain zs where z: "apply_series (rule_transform r) xs = Inr zs"
    and rest: "apply_rules rs zs = Inr ys"
    by (auto split: sum.splits)
  from apply_series_map[OF z] have "zs = map (rule_value r) xs" by simp
  with Cons.IH[OF rest] show ?case by (simp add: o_def)
qed

lemma cast_column_row_image:
  assumes dt: "\<forall>xs ys. to_datetime env xs = Some ys \<longrightarrow> ys = map P xs"
    and ct: "\<forall>xs t ys. cast_series_type env xs t = Some ys \<longrightarrow> ys = map (K t) xs"
    and g: "getitem fr (Name entry) = Some xs"
    and r: "cast_column env entry fr = Returned fr1"
  shows "fr1 = setitem (Name entry) (map (entry_value P K entry) xs) fr"
proof -
  from cast_column_Returned[OF g r] obtain xs1 xs2 ys where
    p: "parsed env (Name entry) xs = Some xs1" and
    a: "apply_rules (matching_rules (Name entry)) xs1 = Inr xs2" and
    k: "cast_series_type env xs2 (Type entry) = Some ys" and
    f: "fr1 = setitem (Name entry) ys fr"
    by blast
  from p dt have "xs1 = map (\<lambda>v. if temporal (Name entry) then P v else v) xs"
    by (auto simp: parsed_def split: if_splits)
  moreover from apply_rules_map[OF a] have "xs2 = map (padded_value (Name entry)) xs1"
    by (simp add: padded_value_def)
  moreover from k ct have "ys = map (K (Type entry)) xs2" by blast
  ultimately have "ys = map (entry_value P K entry) xs"
    by (simp add: entry_value_def o_def)
  with f show ?thesis by simp
qed

lemma cast_dataframe_row_image:
  assumes dt: "\<forall>xs ys. to_datetime env xs = Some ys \<longrightarrow> ys = map P xs"
    and ct: "\<forall>xs t ys. cast_series_type env xs t = Some ys \<longrightarrow> ys = map (K t) xs"
  shows "cast_dataframe env schema fr = Returned fr' \<Longrightarrow> getitem fr c = Some xs \<Longrightarrow>
         getitem fr' c = Some (map (row_image P K schema c) xs)"
proof (induction schema arbitrary: fr xs)
  case Nil
  then show ?case by simp
next
  case (Cons entry rest)
  show ?case
  proof (cases "Name entry \<in> set (columns fr)")
    case False
    with Cons.prems(2) have "Name entry \<noteq> c" by (auto simp: in_columns_iff)
    moreover from False Cons.prems(1) have "cast_dataframe env rest fr = Returned fr'" by simp
    ultimately show ?thesis using Cons.IH[OF _ Cons.prems(2)] by simp
  next
    case True
    then obtain zs where zs: "getitem fr (Name entry) = Some zs"
      by (auto simp: in_columns_iff)
    from Cons.prems(1) True obtain fr1 where
      c1: "cast_column env entry fr = Returned fr1" and
      r1: "cast_dataframe env rest fr1 = Returned fr'"
      by (cases "cast_column env entry fr") auto
    note f = cast_column_row_image[OF dt ct zs c1]
    show ?thesis
    proof (cases "Name entry = c")
      case True
      with zs Cons.prems(2) have "zs = xs" by simp
      with f True have "getitem fr1 c = Some (map (entry_value P K entry) xs)"
        by (simp add: getitem_setitem)
      from Cons.IH[OF r1 this] True show ?thesis by (simp add: o_def)
    next
      case False
      with f Cons.prems(2) have "getitem fr1 c = Some xs"
        by (simp add: getitem_setitem)
      from Cons.IH[OF r1 this] False show ?thesis by simp
    qed
  qed
qed

lemma those_map_pointwise:
  "those (map f xs) = Some ys \<Longrightarrow> ys = map (\<lambda>x. case f x of None \<Rightarrow> x | Some y \<Rightarrow> y) xs"
  by (induction xs arbitrary: ys) (auto split: option.splits)

lemma to_datetime_iso_pointwise: "to_datetime_iso xs = Some ys \<Longrightarrow> ys = map parse_or_keep xs"
  unfolding to_datetime_iso_def using those_map_pointwise[of parse_date xs ys]
  by (simp add: parse_or_keep_def[abs_def])

lemma cast_series_basic_pointwise: "cast_series_basic xs t = Some ys \<Longrightarrow> ys = map (cast_or_keep t) xs"
  unfolding cast_series_basic_def using those_map_pointwise[of "cast_value t" xs ys]
  by (simp add: cast_or_keep_def[abs_def])

section \<open>The claims\<close>

text \<open>
  Several theorems below speak about the entry at the head of the schema and an arbitrary
  frame. By \<open>cast_dataframe_append\<close> the loop on \<open>pre @ column # rest\<close> is the loop on \<open>pre\<close>
  followed by the loop on \<open>column # rest\<close> from the frame \<open>pre\<close> left, so they describe
  every entry at the moment the loop reaches it.
\<close>

subsection \<open>C1: a raise does not roll the frame back\<close>

text \<open>
  C1 as stated fails: the frame is mutated in place, column by column, and nothing
  restores it when a later statement raises. Here \<open>zip_cd\<close> has already been padded when
  \<open>event_date\<close> fails to parse, so the frame the caller holds after the raise differs from
  the one it passed in.
\<close>

theorem raise_leaves_frame_mutated:
  "cast_dataframe basic_env
     [\<lparr>Name = ''zip_cd'', Type = ''string''\<rparr>, \<lparr>Name = ''event_date'', Type = ''timestamp''\<rparr>]
     [(''zip_cd'', [IntV 123]), (''event_date'', [StrV ''not-a-date''])]
   = Raised ParseError [(''zip_cd'', [StrV ''00123'']), (''event_date'', [StrV ''not-a-date''])]
   \<and> [(''zip_cd'', [StrV ''00123'']), (''event_date'', [StrV ''not-a-date''])]
     \<noteq> [(''zip_cd'', [IntV 123]), (''event_date'', [StrV ''not-a-date''])]"
  by (simp add: name_eval value_eval frame_eval basic_eval)

text \<open>
  C1, amended: when \<open>cast_dataframe\<close> raises, no frame is returned, and the caller's frame
  is the result of normalizing the schema entries before the failing one, with the failing
  column holding whatever its completed statements stored. The column labels are the
  original ones, every column other than the failing one is as the preceding entries left
  it, and a column named by none of the entries up to the failing one is in its pre-call
  state.
\<close>

theorem raise_leaves_prefix_normalized:
  assumes "cast_dataframe env schema frame = Raised e fr"
  shows "\<exists>pre column post fr0.
      schema = pre @ column # post
    \<and> cast_dataframe env pre frame = Returned fr0
    \<and> Name column \<in> set (columns fr0)
    \<and> cast_column env column fr0 = Raised e fr
    \<and> columns fr = columns frame
    \<and> (\<forall>c. c \<noteq> Name column \<longrightarrow> getitem fr c = getitem fr0 c)
    \<and> (\<forall>c. c \<notin> Name ` set (pre @ [column]) \<longrightarrow> getitem fr c = getitem frame c)"
proof -
  from cast_dataframe_Raised[OF assms] obtain pre column post fr0 where
    s: "schema = pre @ column # post" and p: "cast_dataframe env pre frame = Returned fr0" and
    m: "Name column \<in> set (columns fr0)" and c: "cast_column env column fr0 = Raised e fr"
    by blast
  have cols: "columns fr = columns frame"
    using cast_dataframe_columns[of env schema frame] assms by simp
  have other: "\<forall>c. c \<noteq> Name column \<longrightarrow> getitem fr c = getitem fr0 c"
    using cast_column_other[OF m, of _ env] c by simp
  have pre: "\<forall>c. c \<notin> Name ` set pre \<longrightarrow> getitem fr0 c = getitem frame c"
    using cast_dataframe_other[of _ pre env frame] p by simp
  have "\<forall>c. c \<notin> Name ` set (pre @ [column]) \<longrightarrow> getitem fr c = getitem frame c"
    using other pre by simp
  with s p m c cols other show ?thesis by blast
qed

theorem raise_leaves_prefix_normalized_witness:
  "cast_dataframe basic_env
     [\<lparr>Name = ''zip_cd'', Type = ''string''\<rparr>, \<lparr>Name = ''event_date'', Type = ''timestamp''\<rparr>]
     [(''zip_cd'', [IntV 123]), (''event_date'', [StrV ''not-a-date''])]
   = Raised ParseError [(''zip_cd'', [StrV ''00123'']), (''event_date'', [StrV ''not-a-date''])]
   \<and> (\<exists>pre column post fr0.
        [\<lparr>Name = ''zip_cd'', Type = ''string''\<rparr>, \<lparr>Name = ''event_date'', Type = ''timestamp''\<rparr>]
          = pre @ column # post
      \<and> cast_dataframe basic_env pre [(''zip_cd'', [IntV 123]), (''event_date'', [StrV ''not-a-date''])]
          = Returned fr0
      \<and> cast_column basic_env column fr0
          = Raised ParseError [(''zip_cd'', [StrV ''00123'']), (''event_date'', [StrV ''not-a-date''])])"
proof -
  have h: "cast_dataframe basic_env
     [\<lparr>Name = ''zip_cd'', Type = ''string''\<rparr>, \<lparr>Name = ''event_date'', Type = ''timestamp''\<rparr>]
     [(''zip_cd'', [IntV 123]), (''event_date'', [StrV ''not-a-date''])]
   = Raised ParseError [(''zip_cd'', [StrV ''00123'']), (''event_date'', [StrV ''not-a-date''])]"
    by (simp add: name_eval value_eval frame_eval basic_eval)
  from raise_leaves_prefix_normalized[OF h] h show ?thesis by blast
qed

subsection \<open>C2: idempotence\<close>

text \<open>
  C2 as stated fails: a \<open>prim_census_tract_cd\<close> column whose value already has six digits
  is multiplied by 100 on the first pass, and the second pass multiplies the stored
  string again (on a string, \<open>100 * s\<close> repeats it), so the second pass does not return the
  frame the first one produced.
\<close>

theorem renormalizing_census_changes_frame:
  "length (str_of (IntV 123456)) = 6
   \<and> cast_dataframe basic_env [\<lparr>Name = ''prim_census_tract_cd'', Type = ''string''\<rparr>]
        [(''prim_census_tract_cd'', [IntV 123456])]
      = Returned [(''prim_census_tract_cd'', [StrV ''12345600''])]
   \<and> cast_dataframe basic_env [\<lparr>Name = ''prim_census_tract_cd'', Type = ''string''\<rparr>]
        [(''prim_census_tract_cd'', [StrV ''12345600''])]
      \<noteq> Returned [(''prim_census_tract_cd'', [StrV ''12345600''])]"
  by (simp add: name_eval value_eval frame_eval basic_eval)

text \<open>
  C2, amended: for a schema with distinct column names in which every entry present in
  the frame is a \<open>stable_entry\<close> (in particular none is a \<open>prim_census_tract_cd\<close> column),
  a frame returned by \<open>cast_dataframe\<close> is returned unchanged by a second pass, whatever
  the widths of the values in the original frame.
\<close>

theorem normalization_idempotent:
  assumes "distinct (map Name schema)"
    and "\<forall>column\<in>set schema. Name column \<in> set (columns frame) \<longrightarrow> stable_entry env column"
    and "cast_dataframe env schema frame = Returned frame'"
  shows "cast_dataframe env schema frame' = Returned frame'"
proof (rule cast_dataframe_fixpoint, intro ballI impI)
  fix column
  assume c: "column \<in> set schema" and "Name column \<in> set (columns frame')"
  moreover have "columns frame' = columns frame"
    using cast_dataframe_columns[of env schema frame] assms(3) by simp
  ultimately have present: "Name column \<in> set (columns frame)" by simp
  from cast_dataframe_column_result[OF assms(1,3) c present] obtain xs ys where
    run: "series_run (column_steps env column) xs = Inr ys" and
    g: "getitem frame' (Name column) = Some ys"
    by blast
  from assms(2) c present have "stable_entry env column" by blast
  from column_steps_stable[OF this run] g
  show "cast_column env column frame' = Returned frame'"
    by (simp add: cast_column_series[OF g] after_steps_def setitem_same)
qed

theorem normalization_idempotent_witness:
  "distinct (map Name [\<lparr>Name = ''zip_cd'', Type = ''string''\<rparr>,
                       \<lparr>Name = ''event_date'', Type = ''timestamp''\<rparr>,
                       \<lparr>Name = ''units'', Type = ''bigint''\<rparr>])
   \<and> cast_dataframe basic_env
        [\<lparr>Name = ''zip_cd'', Type = ''string''\<rparr>, \<lparr>Name = ''event_date'', Type = ''timestamp''\<rparr>,
         \<lparr>Name = ''units'', Type = ''bigint''\<rparr>]
        [(''event_date'', [StrV ''2020-01-31'']), (''zip_cd'', [IntV 123]), (''units'', [StrV ''42''])]
      = Returned [(''event_date'', [TimeV ''2020-01-31 00:00:00'']), (''zip_cd'', [StrV ''00123'']),
                  (''units'', [IntV 42])]
   \<and> cast_dataframe basic_env
        [\<lparr>Name = ''zip_cd'', Type = ''string''\<rparr>, \<lparr>Name = ''event_date'', Type = ''timestamp''\<rparr>,
         \<lparr>Name = ''units'', Type = ''bigint''\<rparr>]
        [(''event_date'', [TimeV ''2020-01-31 00:00:00'']), (''zip_cd'', [StrV ''00123'']),
         (''units'', [IntV 42])]
      = Returned [(''event_date'', [TimeV ''2020-01-31 00:00:00'']), (''zip_cd'', [StrV ''00123'']),
                  (''units'', [IntV 42])]"
proof -
  let ?S = "[\<lparr>Name = ''zip_cd'', Type = ''string''\<rparr>, \<lparr>Name = ''event_date'', Type = ''timestamp''\<rparr>,
             \<lparr>Name = ''units'', Type = ''bigint''\<rparr>]"
  let ?F = "[(''event_date'', [StrV ''2020-01-31'']), (''zip_cd'', [IntV 123]), (''units'', [StrV ''42''])]"
  have d: "distinct (map Name ?S)" by simp
  have z: "stable_entry basic_env \<lparr>Name = ''zip_cd'', Type = ''string''\<rparr>"
    by (simp add: stable_entry_def rule_eval temporal_def name_eval basic_env_def basic_string_keeps)
  have e: "stable_entry basic_env \<lparr>Name = ''event_date'', Type = ''timestamp''\<rparr>"
    by (simp add: stable_entry_def rule_eval temporal_def name_eval basic_env_def
          basic_timestamp_roundtrip)
  have u: "stable_entry basic_env \<lparr>Name = ''units'', Type = ''bigint''\<rparr>"
    by (simp add: stable_entry_def rule_eval temporal_def name_eval basic_env_def basic_bigint_idem)
  from z e u have st: "\<forall>column\<in>set ?S. Name column \<in> set (columns ?F) \<longrightarrow> stable_entry basic_env column"
    by simp
  have ret: "cast_dataframe basic_env ?S ?F
      = Returned [(''event_date'', [TimeV ''2020-01-31 00:00:00'']), (''zip_cd'', [StrV ''00123'']),
                  (''units'', [IntV 42])]"
    by (simp add: name_eval value_eval frame_eval basic_eval)
  from normalization_idempotent[OF d st ret] d ret show ?thesis by blast
qed

subsection \<open>C3: padding to the fixed width of the rule\<close>

text \<open>
  C3 as stated fails. In a \<open>prim_census_tract_cd\<close> column the value is multiplied by 100
  first, so a six-digit value is not left unchanged and a short one is not the padded form
  of its own digits. In a column whose name also has a temporal suffix, such as
  \<open>customer_id_dt\<close>, the values are parsed before they are padded, so a ten-character date
  is not left unchanged either.
\<close>

theorem census_value_not_left_unchanged:
  "cast_dataframe basic_env [\<lparr>Name = ''prim_census_tract_cd'', Type = ''string''\<rparr>]
     [(''prim_census_tract_cd'', [IntV 123456, IntV 5])]
   = Returned [(''prim_census_tract_cd'', [StrV ''12345600'', StrV ''000500''])]
   \<and> zfill (IntV 123456) 6 = StrV ''123456'' \<and> StrV ''12345600'' \<noteq> StrV ''123456''
   \<and> zfill (IntV 5) 6 = StrV ''000005'' \<and> StrV ''000500'' \<noteq> StrV ''000005''
   \<and> cast_dataframe basic_env [\<lparr>Name = ''customer_id_dt'', Type = ''string''\<rparr>]
        [(''customer_id_dt'', [StrV ''2020-01-31''])]
      = Returned [(''customer_id_dt'', [StrV ''2020-01-31 00:00:00''])]
   \<and> zfill (StrV ''2020-01-31'') 10 = StrV ''2020-01-31''
   \<and> StrV ''2020-01-31 00:00:00'' \<noteq> StrV ''2020-01-31''"
  by (simp add: name_eval value_eval frame_eval basic_eval)

text \<open>
  C3, amended: for every column whose name contains a padding substring, does not contain
  \<open>prim_census_tract_cd\<close> and has none of the temporal suffixes, the series handed to the
  type cast holds, for each value of the column, its string form left-padded with \<open>0\<close> to
  the width of the matching rule: 5 for \<open>zip_cd\<close> and \<open>cbsa_cd\<close>, 3 for \<open>cnty_cd\<close>, 2 for
  \<open>sale_regn_cd\<close>, 4 for \<open>prim_msa_cd\<close>, 10 for \<open>customer_id\<close> and \<open>_cust_id\<close>, 2 for
  \<open>lnprps_cd\<close> and \<open>uw_desgntn_cd\<close>, and the largest of the matching widths when several
  substrings occur in the name. Padding only prepends zeros: the string form is kept
  whole, the result has the length of the wider of the two, and a value whose string form
  is at or beyond the width is left as that string. In a \<open>zip_cd\<close> column 123 becomes
  \<open>00123\<close> and 123456 stays \<open>123456\<close>.
\<close>

theorem padding_to_fixed_width:
  assumes "getitem frame (Name column) = Some xs"
    and "matching_rules (Name column) \<noteq> []"
    and "\<not> contains (Name column) ''prim_census_tract_cd''"
    and "\<not> list_ex (endswith (Name column)) [''date'', ''_dt'', ''_ts'', ''_date_time'', ''_timestamp'']"
  shows "cast_dataframe env (column # rest) frame =
           (case cast_series_type env (map (\<lambda>v. zfill v (pad_width (Name column))) xs) (Type column) of
              None \<Rightarrow> Raised TypeCoercionError
                        (setitem (Name column) (map (\<lambda>v. zfill v (pad_width (Name column))) xs) frame)
            | Some ys \<Rightarrow> cast_dataframe env rest (setitem (Name column) ys frame))
       \<and> getitem (frame_of (cast_dataframe env [column] frame)) (Name column)
           = Some (case cast_series_type env (map (\<lambda>v. zfill v (pad_width (Name column))) xs) (Type column) of
                     None \<Rightarrow> map (\<lambda>v. zfill v (pad_width (Name column))) xs
                   | Some ys \<Rightarrow> ys)
       \<and> pad_width (Name column) \<in> rule_width ` set (matching_rules (Name column))
       \<and> (\<forall>r\<in>set (matching_rules (Name column)). rule_width r \<le> pad_width (Name column))
       \<and> map pad_width [''zip_cd'', ''cbsa_cd'', ''cnty_cd'', ''sale_regn_cd'', ''prim_msa_cd'',
                         ''customer_id'', ''_cust_id'', ''lnprps_cd'', ''uw_desgntn_cd'']
           = [5, 5, 3, 2, 4, 10, 10, 2, 2]
       \<and> (\<forall>v w. \<exists>zeros. zfill v w = StrV (zeros @ str_of v) \<and> set zeros \<subseteq> {CHR ''0''}
              \<and> length (zeros @ str_of v) = max w (length (str_of v)))
       \<and> (\<forall>v w. w \<le> length (str_of v) \<longrightarrow> zfill v w = StrV (str_of v))
       \<and> (\<forall>fr t. getitem fr ''zip_cd'' = Some [IntV 123, IntV 123456] \<longrightarrow>
            cast_dataframe env (\<lparr>Name = ''zip_cd'', Type = t\<rparr> # rest) fr =
              (case cast_series_type env [StrV ''00123'', StrV ''123456''] t of
                 None \<Rightarrow> Raised TypeCoercionError (setitem ''zip_cd'' [StrV ''00123'', StrV ''123456''] fr)
               | Some ys \<Rightarrow> cast_dataframe env rest (setitem ''zip_cd'' ys fr)))"
proof -
  from assms(4) have nt: "\<not> temporal (Name column)" by (simp add: temporal_iff)
  note a = plain_rules_cast(1)[OF assms(1) nt assms(2,3), of env rest]
  note b = plain_rules_cast(2)[OF assms(1) nt assms(2,3), of env]
  have c: "pad_width (Name column) \<in> rule_width ` set (matching_rules (Name column))"
    unfolding pad_width_def by (rule foldr_max_mem[OF assms(2)])
  have d: "\<forall>r\<in>set (matching_rules (Name column)). rule_width r \<le> pad_width (Name column)"
    by (simp add: pad_width_def foldr_max_ge)
  have e: "map pad_width [''zip_cd'', ''cbsa_cd'', ''cnty_cd'', ''sale_regn_cd'', ''prim_msa_cd'',
                         ''customer_id'', ''_cust_id'', ''lnprps_cd'', ''uw_desgntn_cd'']
           = [5, 5, 3, 2, 4, 10, 10, 2, 2]"
    by (simp add: rule_eval name_eval)
  have f: "\<forall>v w. \<exists>zeros. zfill v w = StrV (zeros @ str_of v) \<and> set zeros \<subseteq> {CHR ''0''}
              \<and> length (zeros @ str_of v) = max w (length (str_of v))"
    using zfill_shape by blast
  have g: "\<forall>v w. w \<le> length (str_of v) \<longrightarrow> zfill v w = StrV (str_of v)"
    by (simp add: zfill_wide)
  have h: "cast_dataframe env (\<lparr>Name = ''zip_cd'', Type = t\<rparr> # rest) fr =
              (case cast_series_type env [StrV ''00123'', StrV ''123456''] t of
                 None \<Rightarrow> Raised TypeCoercionError (setitem ''zip_cd'' [StrV ''00123'', StrV ''123456''] fr)
               | Some ys \<Rightarrow> cast_dataframe env rest (setitem ''zip_cd'' ys fr))"
    if "getitem fr ''zip_cd'' = Some [IntV 123, IntV 123456]" for fr t
  proof -
    have p: "apply_rules (matching_rules (Name \<lparr>Name = ''zip_cd'', Type = t\<rparr>)) [IntV 123, IntV 123456]
               = Inr [StrV ''00123'', StrV ''123456'']"
      by (simp add: zip_rules value_eval)
    from that have g': "getitem fr (Name \<lparr>Name = ''zip_cd'', Type = t\<rparr>) = Some [IntV 123, IntV 123456]"
      by simp
    have q: "parsed env (Name \<lparr>Name = ''zip_cd'', Type = t\<rparr>) [IntV 123, IntV 123456]
               = Some [IntV 123, IntV 123456]"
      by (simp add: parsed_not_temporal zip_not_temporal)
    from cast_dataframe_Cons_cast[OF g' q p, of rest, unfolded column.select_convs]
    show ?thesis .
  qed
  from a b c d e f g h show ?thesis by blast
qed

theorem padding_to_fixed_width_witness:
  "matching_rules ''zip_cd'' \<noteq> [] \<and> \<not> contains ''zip_cd'' ''prim_census_tract_cd''
   \<and> \<not> list_ex (endswith ''zip_cd'') [''date'', ''_dt'', ''_ts'', ''_date_time'', ''_timestamp'']
   \<and> pad_width ''zip_cd'' = 5
   \<and> cast_dataframe basic_env [\<lparr>Name = ''zip_cd'', Type = ''string''\<rparr>]
        [(''zip_cd'', [IntV 123, IntV 123456])]
      = Returned [(''zip_cd'', [StrV ''00123'', StrV ''123456''])]"
proof -
  have g: "getitem [(''zip_cd'', [IntV 123, IntV 123456])] (Name \<lparr>Name = ''zip_cd'', Type = ''string''\<rparr>)
             = Some [IntV 123, IntV 123456]"
    by (simp add: getitem_def)
  have m: "matching_rules (Name \<lparr>Name = ''zip_cd'', Type = ''string''\<rparr>) \<noteq> []"
    by (simp add: rule_eval name_eval)
  have c: "\<not> contains (Name \<lparr>Name = ''zip_cd'', Type = ''string''\<rparr>) ''prim_census_tract_cd''"
    by (simp add: name_eval)
  have t: "\<not> list_ex (endswith (Name \<lparr>Name = ''zip_cd'', Type = ''string''\<rparr>))
               [''date'', ''_dt'', ''_ts'', ''_date_time'', ''_timestamp'']"
    by (simp add: name_eval)
  have w: "pad_width ''zip_cd'' = 5"
    by (simp add: rule_eval name_eval)
  have k: "cast_series_type basic_env [StrV ''00123'', StrV ''123456''] ''string''
             = Some [StrV ''00123'', StrV ''123456'']"
    by (simp add: basic_eval)
  have r: "cast_dataframe basic_env [\<lparr>Name = ''zip_cd'', Type = ''string''\<rparr>]
        [(''zip_cd'', [IntV 123, IntV 123456])]
      = Returned [(''zip_cd'', [StrV ''00123'', StrV ''123456''])]"
    using padding_to_fixed_width[OF g m c t, where rest = "[]" and env = basic_env, THEN conjunct1] k
    by (simp add: w value_eval setitem_def)
  from m c t w r show ?thesis by simp
qed

subsection \<open>C4: census tract codes are multiplied by 100\<close>

text \<open>
  C4 as stated fails. The census statement is one of seven independent statements, and
  \<open>100 * geo_cd\<close> is Python's \<open>*\<close>: under \<open>prim_census_tract_cd_customer_id\<close> the value 5 is
  padded on to width 10, and in a \<open>prim_census_tract_cd\<close> column the text cell \<open>5\<close> is
  repeated a hundred times. Neither is \<open>000500\<close>.
\<close>

theorem census_product_depends_on_name_and_cell:
  "cast_dataframe basic_env [\<lparr>Name = ''prim_census_tract_cd_customer_id'', Type = ''string''\<rparr>]
     [(''prim_census_tract_cd_customer_id'', [IntV 5])]
   = Returned [(''prim_census_tract_cd_customer_id'', [StrV ''0000000500''])]
   \<and> StrV ''0000000500'' \<noteq> StrV ''000500''
   \<and> cast_dataframe basic_env [\<lparr>Name = ''prim_census_tract_cd'', Type = ''string''\<rparr>]
        [(''prim_census_tract_cd'', [StrV ''5''])]
      = Returned [(''prim_census_tract_cd'', [StrV (replicate 100 CHR ''5'')])]
   \<and> StrV (replicate 100 CHR ''5'') \<noteq> StrV ''000500''"
  by (simp add: name_eval value_eval frame_eval basic_eval)

text \<open>
  C4, amended: for every column of integers whose name contains \<open>prim_census_tract_cd\<close>,
  contains no other padding substring and has none of the temporal suffixes, each value is
  multiplied by 100 and the product is zero-padded to width 6 before the column is cast to
  its declared type; the value 5 becomes \<open>000500\<close>.
\<close>

theorem census_tract_times_100:
  assumes "getitem frame (Name column) = Some (map IntV ns)"
    and "contains (Name column) ''prim_census_tract_cd''"
    and "\<not> list_ex (contains (Name column)) [''zip_cd'', ''cbsa_cd'', ''cnty_cd'', ''sale_regn_cd'',
            ''prim_msa_cd'', ''customer_id'', ''_cust_id'', ''lnprps_cd'', ''uw_desgntn_cd'']"
    and "\<not> list_ex (endswith (Name column)) [''date'', ''_dt'', ''_ts'', ''_date_time'', ''_timestamp'']"
  shows "cast_dataframe env (column # rest) frame =
           (case cast_series_type env (map (\<lambda>n. zfill (IntV (100 * n)) 6) ns) (Type column) of
              None \<Rightarrow> Raised TypeCoercionError
                        (setitem (Name column) (map (\<lambda>n. zfill (IntV (100 * n)) 6) ns) frame)
            | Some ys \<Rightarrow> cast_dataframe env rest (setitem (Name column) ys frame))
       \<and> getitem (frame_of (cast_dataframe env [column] frame)) (Name column)
           = Some (case cast_series_type env (map (\<lambda>n. zfill (IntV (100 * n)) 6) ns) (Type column) of
                     None \<Rightarrow> map (\<lambda>n. zfill (IntV (100 * n)) 6) ns
                   | Some ys \<Rightarrow> ys)
       \<and> (ns = [5] \<longrightarrow>
            cast_dataframe env (column # rest) frame =
              (case cast_series_type env [StrV ''000500''] (Type column) of
                 None \<Rightarrow> Raised TypeCoercionError (setitem (Name column) [StrV ''000500''] frame)
               | Some ys \<Rightarrow> cast_dataframe env rest (setitem (Name column) ys frame)))"
proof -
  from assms(4) have nt: "\<not> temporal (Name column)" by (simp add: temporal_iff)
  note a = census_rule_cast(1)[OF assms(1) nt assms(2,3), of env rest]
  note b = census_rule_cast(2)[OF assms(1) nt assms(2,3), of env]
  have five: "zfill (IntV (100 * 5)) 6 = StrV ''000500''"
    by (simp add: value_eval)
  have c: "ns = [5] \<longrightarrow>
            cast_dataframe env (column # rest) frame =
              (case cast_series_type env [StrV ''000500''] (Type column) of
                 None \<Rightarrow> Raised TypeCoercionError (setitem (Name column) [StrV ''000500''] frame)
               | Some ys \<Rightarrow> cast_dataframe env rest (setitem (Name column) ys frame))"
  proof
    assume "ns = [5]"
    with five have "map (\<lambda>n. zfill (IntV (100 * n)) 6) ns = [StrV ''000500'']" by simp
    from a[unfolded this] show "cast_dataframe env (column # rest) frame =
              (case cast_series_type env [StrV ''000500''] (Type column) of
                 None \<Rightarrow> Raised TypeCoercionError (setitem (Name column) [StrV ''000500''] frame)
               | Some ys \<Rightarrow> cast_dataframe env rest (setitem (Name column) ys frame))" .
  qed
  from a b c show ?thesis by blast
qed

theorem census_tract_times_100_witness:
  "contains ''prim_census_tract_cd'' ''prim_census_tract_cd''
   \<and> \<not> list_ex (contains ''prim_census_tract_cd'') [''zip_cd'', ''cbsa_cd'', ''cnty_cd'', ''sale_regn_cd'',
            ''prim_msa_cd'', ''customer_id'', ''_cust_id'', ''lnprps_cd'', ''uw_desgntn_cd'']
   \<and> \<not> list_ex (endswith ''prim_census_tract_cd'') [''date'', ''_dt'', ''_ts'', ''_date_time'', ''_timestamp'']
   \<and> cast_dataframe basic_env [\<lparr>Name = ''prim_census_tract_cd'', Type = ''string''\<rparr>]
        [(''prim_census_tract_cd'', [IntV 5, IntV 12])]
      = Returned [(''prim_census_tract_cd'', [StrV ''000500'', StrV ''001200''])]"
proof -
  have g: "getitem [(''prim_census_tract_cd'', [IntV 5, IntV 12])]
             (Name \<lparr>Name = ''prim_census_tract_cd'', Type = ''string''\<rparr>) = Some (map IntV [5, 12])"
    by (simp add: getitem_def)
  have c: "contains (Name \<lparr>Name = ''prim_census_tract_cd'', Type = ''string''\<rparr>) ''prim_census_tract_cd''"
    by (simp add: name_eval)
  have o: "\<not> list_ex (contains (Name \<lparr>Name = ''prim_census_tract_cd'', Type = ''string''\<rparr>))
             [''zip_cd'', ''cbsa_cd'', ''cnty_cd'', ''sale_regn_cd'',
              ''prim_msa_cd'', ''customer_id'', ''_cust_id'', ''lnprps_cd'', ''uw_desgntn_cd'']"
    by (simp add: name_eval)
  have t: "\<not> list_ex (endswith (Name \<lparr>Name = ''prim_census_tract_cd'', Type = ''string''\<rparr>))
               [''date'', ''_dt'', ''_ts'', ''_date_time'', ''_timestamp'']"
    by (simp add: name_eval)
  have v: "map (\<lambda>n. zfill (IntV (100 * n)) 6) [5, 12] = [StrV ''000500'', StrV ''001200'']"
    by (simp only: list.map) (simp add: value_eval)
  have k: "cast_series_type basic_env [StrV ''000500'', StrV ''001200''] ''string''
             = Some [StrV ''000500'', StrV ''001200'']"
    by (simp add: basic_eval)
  have r: "cast_dataframe basic_env [\<lparr>Name = ''prim_census_tract_cd'', Type = ''string''\<rparr>]
        [(''prim_census_tract_cd'', [IntV 5, IntV 12])]
      = Returned [(''prim_census_tract_cd'', [StrV ''000500'', StrV ''001200''])]"
    using census_tract_times_100[OF g c o t, where rest = "[]" and env = basic_env, THEN conjunct1,
        unfolded v] k
    by (simp add: setitem_def)
  from c o t r show ?thesis by simp
qed

subsection \<open>C5: \<open>UNK\<close> under \<open>lnprps_cd\<close> and \<open>uw_desgntn_cd\<close>\<close>

text \<open>
  C5 as stated fails for a name that an earlier rule matches as well: under
  \<open>zip_cd_lnprps_cd\<close> the \<open>zip_cd\<close> statement has padded the column to width 5 before the
  \<open>UNK\<close> test is made, so \<open>UNK\<close> is returned as \<open>00UNK\<close> and 7 as \<open>00007\<close>.
\<close>

theorem unk_padded_by_earlier_rule:
  "cast_dataframe basic_env [\<lparr>Name = ''zip_cd_lnprps_cd'', Type = ''string''\<rparr>]
     [(''zip_cd_lnprps_cd'', [StrV ''UNK'', IntV 7])]
   = Returned [(''zip_cd_lnprps_cd'', [StrV ''00UNK'', StrV ''00007''])]
   \<and> StrV ''00UNK'' \<noteq> StrV ''UNK'' \<and> StrV ''00007'' \<noteq> StrV ''07''"
  by (simp add: name_eval value_eval frame_eval basic_eval)

text \<open>
  C5, amended: for every column whose name contains \<open>lnprps_cd\<close> or \<open>uw_desgntn_cd\<close>,
  contains no other padding substring and has none of the temporal suffixes, a value equal
  to the string \<open>UNK\<close> reaches the type cast unmodified and every other value is
  zero-padded to width 2. In a \<open>sale_regn_cd\<close> column 7 becomes \<open>07\<close>.
\<close>

theorem unk_passes_through:
  assumes "getitem frame (Name column) = Some xs"
    and "contains (Name column) ''lnprps_cd'' \<or> contains (Name column) ''uw_desgntn_cd''"
    and "\<not> list_ex (contains (Name column)) [''zip_cd'', ''cbsa_cd'', ''cnty_cd'', ''sale_regn_cd'',
            ''prim_msa_cd'', ''prim_census_tract_cd'', ''customer_id'', ''_cust_id'']"
    and "\<not> list_ex (endswith (Name column)) [''date'', ''_dt'', ''_ts'', ''_date_time'', ''_timestamp'']"
  shows "cast_dataframe env (column # rest) frame =
           (case cast_series_type env
                   (map (\<lambda>v. if v = StrV ''UNK'' then v else zfill v 2) xs) (Type column) of
              None \<Rightarrow> Raised TypeCoercionError
                        (setitem (Name column)
                           (map (\<lambda>v. if v = StrV ''UNK'' then v else zfill v 2) xs) frame)
            | Some ys \<Rightarrow> cast_dataframe env rest (setitem (Name column) ys frame))
       \<and> getitem (frame_of (cast_dataframe env [column] frame)) (Name column)
           = Some (case cast_series_type env
                          (map (\<lambda>v. if v = StrV ''UNK'' then v else zfill v 2) xs) (Type column) of
                     None \<Rightarrow> map (\<lambda>v. if v = StrV ''UNK'' then v else zfill v 2) xs
                   | Some ys \<Rightarrow> ys)
       \<and> (\<forall>fr t. getitem fr ''sale_regn_cd'' = Some [IntV 7] \<longrightarrow>
            cast_dataframe env (\<lparr>Name = ''sale_regn_cd'', Type = t\<rparr> # rest) fr =
              (case cast_series_type env [StrV ''07''] t of
                 None \<Rightarrow> Raised TypeCoercionError (setitem ''sale_regn_cd'' [StrV ''07''] fr)
               | Some ys \<Rightarrow> cast_dataframe env rest (setitem ''sale_regn_cd'' ys fr)))"
proof -
  from assms(4) have nt: "\<not> temporal (Name column)" by (simp add: temporal_iff)
  note a = unk_rule_cast(1)[OF assms(1) nt assms(2,3), of env rest]
  note b = unk_rule_cast(2)[OF assms(1) nt assms(2,3), of env]
  have c: "cast_dataframe env (\<lparr>Name = ''sale_regn_cd'', Type = t\<rparr> # rest) fr =
              (case cast_series_type env [StrV ''07''] t of
                 None \<Rightarrow> Raised TypeCoercionError (setitem ''sale_regn_cd'' [StrV ''07''] fr)
               | Some ys \<Rightarrow> cast_dataframe env rest (setitem ''sale_regn_cd'' ys fr))"
    if "getitem fr ''sale_regn_cd'' = Some [IntV 7]" for fr t
  proof -
    have p: "apply_rules (matching_rules (Name \<lparr>Name = ''sale_regn_cd'', Type = t\<rparr>)) [IntV 7]
               = Inr [StrV ''07'']"
      by (simp add: sale_regn_rules value_eval)
    from that have g': "getitem fr (Name \<lparr>Name = ''sale_regn_cd'', Type = t\<rparr>) = Some [IntV 7]"
      by simp
    have q: "parsed env (Name \<lparr>Name = ''sale_regn_cd'', Type = t\<rparr>) [IntV 7] = Some [IntV 7]"
      by (simp add: parsed_not_temporal sale_regn_not_temporal)
    from cast_dataframe_Cons_cast[OF g' q p, of rest, unfolded column.select_convs]
    show ?thesis .
  qed
  from a b c show ?thesis by blast
qed

theorem unk_passes_through_witness:
  "(contains ''lnprps_cd'' ''lnprps_cd'' \<or> contains ''lnprps_cd'' ''uw_desgntn_cd'')
   \<and> \<not> list_ex (contains ''lnprps_cd'') [''zip_cd'', ''cbsa_cd'', ''cnty_cd'', ''sale_regn_cd'',
            ''prim_msa_cd'', ''prim_census_tract_cd'', ''customer_id'', ''_cust_id'']
   \<and> \<not> list_ex (endswith ''lnprps_cd'') [''date'', ''_dt'', ''_ts'', ''_date_time'', ''_timestamp'']
   \<and> cast_dataframe basic_env [\<lparr>Name = ''lnprps_cd'', Type = ''string''\<rparr>]
        [(''lnprps_cd'', [StrV ''UNK'', IntV 7])]
      = Returned [(''lnprps_cd'', [StrV ''UNK'', StrV ''07''])]
   \<and> cast_dataframe basic_env [\<lparr>Name = ''sale_regn_cd'', Type = ''string''\<rparr>]
        [(''sale_regn_cd'', [IntV 7])]
      = Returned [(''sale_regn_cd'', [StrV ''07''])]"
proof -
  have g: "getitem [(''lnprps_cd'', [StrV ''UNK'', IntV 7])]
             (Name \<lparr>Name = ''lnprps_cd'', Type = ''string''\<rparr>) = Some [StrV ''UNK'', IntV 7]"
    by (simp add: getitem_def)
  have c: "contains (Name \<lparr>Name = ''lnprps_cd'', Type = ''string''\<rparr>) ''lnprps_cd''
           \<or> contains (Name \<lparr>Name = ''lnprps_cd'', Type = ''string''\<rparr>) ''uw_desgntn_cd''"
    by (simp add: name_eval)
  have o: "\<not> list_ex (contains (Name \<lparr>Name = ''lnprps_cd'', Type = ''string''\<rparr>))
             [''zip_cd'', ''cbsa_cd'', ''cnty_cd'', ''sale_regn_cd'',
              ''prim_msa_cd'', ''prim_census_tract_cd'', ''customer_id'', ''_cust_id'']"
    by (simp add: name_eval)
  have t: "\<not> list_ex (endswith (Name \<lparr>Name = ''lnprps_cd'', Type = ''string''\<rparr>))
               [''date'', ''_dt'', ''_ts'', ''_date_time'', ''_timestamp'']"
    by (simp add: name_eval)
  have k: "cast_series_type basic_env [StrV ''UNK'', StrV ''07''] ''string''
             = Some [StrV ''UNK'', StrV ''07'']"
    by (simp add: basic_eval)
  have k7: "cast_series_type basic_env [StrV ''07''] ''string'' = Some [StrV ''07'']"
    by (simp add: basic_eval)
  have g7: "getitem [(''sale_regn_cd'', [IntV 7])] ''sale_regn_cd'' = Some [IntV 7]"
    by (simp add: getitem_def)
  note T = unk_passes_through[OF g c o t, where rest = "[]" and env = basic_env]
  have r: "cast_dataframe basic_env [\<lparr>Name = ''lnprps_cd'', Type = ''string''\<rparr>]
        [(''lnprps_cd'', [StrV ''UNK'', IntV 7])]
      = Returned [(''lnprps_cd'', [StrV ''UNK'', StrV ''07''])]"
    using T[THEN conjunct1] k
    by (simp add: value_eval setitem_def)
  from T[THEN conjunct2, THEN conjunct2] g7
  have "cast_dataframe basic_env [\<lparr>Name = ''sale_regn_cd'', Type = ''string''\<rparr>]
        [(''sale_regn_cd'', [IntV 7])]
      = (case cast_series_type basic_env [StrV ''07''] ''string'' of
           None \<Rightarrow> Raised TypeCoercionError (setitem ''sale_regn_cd'' [StrV ''07''] [(''sale_regn_cd'', [IntV 7])])
         | Some ys \<Rightarrow> cast_dataframe basic_env [] (setitem ''sale_regn_cd'' ys [(''sale_regn_cd'', [IntV 7])]))"
    by blast
  then have r7: "cast_dataframe basic_env [\<lparr>Name = ''sale_regn_cd'', Type = ''string''\<rparr>]
        [(''sale_regn_cd'', [IntV 7])]
      = Returned [(''sale_regn_cd'', [StrV ''07''])]"
    by (simp add: k7 setitem_def)
  from c o t r r7 show ?thesis by simp
qed

subsection \<open>C6: temporal coercion\<close>



subsection \<open>C7: absent schema entries and unlisted columns\<close>

text \<open>
  C7: a schema entry whose name is not a column of the frame is passed over without
  error, so the call behaves as on the schema restricted to the frame's columns, and a
  schema with no such column returns the frame as it is. A column of the frame that no
  schema entry names has the same content after the call, returned or raised, and the
  column labels and their order do not change.
\<close>

theorem absent_skipped_unlisted_untouched:
  "(Name column \<notin> set (columns frame) \<longrightarrow>
      cast_dataframe env (column # rest) frame = cast_dataframe env rest frame)
   \<and> ((\<forall>entry\<in>set schema. Name entry \<notin> set (columns frame)) \<longrightarrow>
      cast_dataframe env schema frame = Returned frame)
   \<and> cast_dataframe env schema frame =
      cast_dataframe env (filter (\<lambda>entry. Name entry \<in> set (columns frame)) schema) frame
   \<and> (c \<notin> Name ` set schema \<longrightarrow>
      getitem (frame_of (cast_dataframe env schema frame)) c = getitem frame c)
   \<and> columns (frame_of (cast_dataframe env schema frame)) = columns frame"
  using cast_dataframe_absent[of schema frame env] cast_dataframe_filter[of env schema frame]
    cast_dataframe_other[of c schema env frame] cast_dataframe_columns[of env schema frame]
  by simp

theorem absent_skipped_unlisted_untouched_witness:
  "cast_dataframe basic_env
     [\<lparr>Name = ''cnty_cd'', Type = ''string''\<rparr>, \<lparr>Name = ''zip_cd'', Type = ''string''\<rparr>]
     [(''zip_cd'', [IntV 123]), (''note'', [StrV ''a''])]
   = cast_dataframe basic_env [\<lparr>Name = ''zip_cd'', Type = ''string''\<rparr>]
     [(''zip_cd'', [IntV 123]), (''note'', [StrV ''a''])]
   \<and> cast_dataframe basic_env [\<lparr>Name = ''cnty_cd'', Type = ''string''\<rparr>]
     [(''zip_cd'', [IntV 123]), (''note'', [StrV ''a''])]
     = Returned [(''zip_cd'', [IntV 123]), (''note'', [StrV ''a''])]
   \<and> getitem (frame_of (cast_dataframe basic_env
        [\<lparr>Name = ''cnty_cd'', Type = ''string''\<rparr>, \<lparr>Name = ''zip_cd'', Type = ''string''\<rparr>]
        [(''zip_cd'', [IntV 123]), (''note'', [StrV ''a''])])) ''note'' = Some [StrV ''a'']"
  using absent_skipped_unlisted_untouched
     [of "\<lparr>Name = ''cnty_cd'', Type = ''string''\<rparr>" "[(''zip_cd'', [IntV 123]), (''note'', [StrV ''a''])]"
         basic_env "[\<lparr>Name = ''zip_cd'', Type = ''string''\<rparr>]"
         "[\<lparr>Name = ''cnty_cd'', Type = ''string''\<rparr>]" "''note''"]
    absent_skipped_unlisted_untouched
     [of "\<lparr>Name = ''cnty_cd'', Type = ''string''\<rparr>" "[(''zip_cd'', [IntV 123]), (''note'', [StrV ''a''])]"
         basic_env "[\<lparr>Name = ''zip_cd'', Type = ''string''\<rparr>]"
         "[\<lparr>Name = ''cnty_cd'', Type = ''string''\<rparr>, \<lparr>Name = ''zip_cd'', Type = ''string''\<rparr>]" "''note''"]
  by (simp add: columns_def getitem_def)

subsection \<open>C8: several padding rules on one column\<close>

text \<open>
  C8: the padding statements of the body act as the rules of the specification's table
  whose substring occurs in the column name, applied in table order, each to the series
  the previous one produced (\<open>apply_rules\<close> on \<open>matching_rules\<close>). When they all
  succeed, their output is what the type cast receives; when one raises, the call raises
  that error.
\<close>

theorem padding_rules_chain:
  assumes "getitem frame (Name column) = Some xs" and "parsed env (Name column) xs = Some xs1"
  shows "(\<forall>xs2. apply_rules (matching_rules (Name column)) xs1 = Inr xs2 \<longrightarrow>
            cast_dataframe env (column # rest) frame =
              (case cast_series_type env xs2 (Type column) of
                 None \<Rightarrow> Raised TypeCoercionError (setitem (Name column) xs2 frame)
               | Some ys \<Rightarrow> cast_dataframe env rest (setitem (Name column) ys frame)))
       \<and> (\<forall>e. apply_rules (matching_rules (Name column)) xs1 = Inl e \<longrightarrow>
            (\<exists>zs. cast_dataframe env (column # rest) frame = Raised e (setitem (Name column) zs frame)))"
proof -
  from assms(1) have present: "Name column \<in> set (columns frame)" by (simp add: in_columns_iff)
  have "\<exists>zs. cast_dataframe env (column # rest) frame = Raised e (setitem (Name column) zs frame)"
    if "apply_rules (matching_rules (Name column)) xs1 = Inl e" for e
  proof -
    from cast_column_rule_error[OF assms that] obtain zs
      where "cast_column env column frame = Raised e (setitem (Name column) zs frame)" ..
    with present have "cast_dataframe env (column # rest) frame = Raised e (setitem (Name column) zs frame)"
      by simp
    then show ?thesis ..
  qed
  with cast_dataframe_Cons_cast[OF assms] show ?thesis by blast
qed

theorem padding_rules_chain_witness:
  "matching_rules ''zip_cd_customer_id''
     = [([''zip_cd'', ''cbsa_cd''], 5, Plain), ([''customer_id'', ''_cust_id''], 10, Plain)]
   \<and> apply_rules (matching_rules ''zip_cd_customer_id'') [IntV 42] = Inr [StrV ''0000000042'']
   \<and> cast_dataframe basic_env [\<lparr>Name = ''zip_cd_customer_id'', Type = ''string''\<rparr>]
        [(''zip_cd_customer_id'', [IntV 42])]
      = Returned [(''zip_cd_customer_id'', [StrV ''0000000042''])]
   \<and> apply_rules (matching_rules ''prim_census_tract_cd'') [TimeV ''2020-01-31 00:00:00''] = Inl TypeError
   \<and> (\<exists>zs. cast_dataframe (basic_env\<lparr>to_datetime := Some\<rparr>)
              [\<lparr>Name = ''prim_census_tract_cd'', Type = ''string''\<rparr>]
              [(''prim_census_tract_cd'', [TimeV ''2020-01-31 00:00:00''])]
            = Raised TypeError (setitem ''prim_census_tract_cd'' zs
                [(''prim_census_tract_cd'', [TimeV ''2020-01-31 00:00:00''])]))"
proof -
  have m: "matching_rules ''zip_cd_customer_id''
     = [([''zip_cd'', ''cbsa_cd''], 5, Plain), ([''customer_id'', ''_cust_id''], 10, Plain)]"
    by (simp add: matching_rules_def padding_table_def name_eval)
  have g: "getitem [(''zip_cd_customer_id'', [IntV 42])]
             (Name \<lparr>Name = ''zip_cd_customer_id'', Type = ''string''\<rparr>) = Some [IntV 42]"
    by (simp add: getitem_def)
  have p: "parsed basic_env (Name \<lparr>Name = ''zip_cd_customer_id'', Type = ''string''\<rparr>) [IntV 42]
             = Some [IntV 42]"
    by (simp add: parsed_def temporal_def name_eval)
  have r: "apply_rules (matching_rules ''zip_cd_customer_id'') [IntV 42] = Inr [StrV ''0000000042'']"
    by (simp add: m value_eval)
  have k: "cast_series_type basic_env [StrV ''0000000042''] ''string'' = Some [StrV ''0000000042'']"
    by (simp add: basic_eval)
  have m2: "matching_rules ''prim_census_tract_cd'' = [([''prim_census_tract_cd''], 6, Times100)]"
    by (simp add: matching_rules_def padding_table_def name_eval)
  have g2: "getitem [(''prim_census_tract_cd'', [TimeV ''2020-01-31 00:00:00''])]
             (Name \<lparr>Name = ''prim_census_tract_cd'', Type = ''string''\<rparr>)
             = Some [TimeV ''2020-01-31 00:00:00'']"
    by (simp add: getitem_def)
  have p2: "parsed (basic_env\<lparr>to_datetime := Some\<rparr>)
              (Name \<lparr>Name = ''prim_census_tract_cd'', Type = ''string''\<rparr>) [TimeV ''2020-01-31 00:00:00'']
             = Some [TimeV ''2020-01-31 00:00:00'']"
    by (simp add: parsed_def)
  have r2: "apply_rules (matching_rules ''prim_census_tract_cd'') [TimeV ''2020-01-31 00:00:00''] = Inl TypeError"
    by (simp add: m2)
  show ?thesis
    using padding_rules_chain[OF g p, where rest = "[]"] padding_rules_chain[OF g2 p2, where rest = "[]"]
      m r k r2
    by (simp add: setitem_def)
qed

subsection \<open>C9: the type cast runs for every processed column\<close>

text \<open>
  C9: the cast to the declared type is not guarded by any condition on the column name.
  Whenever the call returns, the column of the entry went through \<open>cast_series_type\<close> with
  the entry's type and its result was stored; when the earlier statements complete and
  the cast fails, the call raises \<open>TypeCoercionError\<close>; for a name that is neither
  temporal nor matched by a padding rule the cast is applied to the column as it is; and
  a call that returns has cast, with success, the column of every schema entry present in
  the frame, wherever the entry stands in the schema.
\<close>

theorem type_coercion_always_runs:
  assumes "getitem frame (Name column) = Some xs"
  shows "(\<forall>frame'. cast_dataframe env (column # rest) frame = Returned frame' \<longrightarrow>
            (\<exists>xs1 xs2 ys. parsed env (Name column) xs = Some xs1
               \<and> apply_rules (matching_rules (Name column)) xs1 = Inr xs2
               \<and> cast_series_type env xs2 (Type column) = Some ys
               \<and> cast_dataframe env rest (setitem (Name column) ys frame) = Returned frame'))
       \<and> (\<forall>xs1 xs2. parsed env (Name column) xs = Some xs1
               \<and> apply_rules (matching_rules (Name column)) xs1 = Inr xs2
               \<and> cast_series_type env xs2 (Type column) = None \<longrightarrow>
            cast_dataframe env (column # rest) frame
              = Raised TypeCoercionError (setitem (Name column) xs2 frame))
       \<and> (\<not> temporal (Name column) \<and> matching_rules (Name column) = [] \<longrightarrow>
            cast_dataframe env (column # rest) frame =
              (case cast_series_type env xs (Type column) of
                 None \<Rightarrow> Raised TypeCoercionError frame
               | Some ys \<Rightarrow> cast_dataframe env rest (setitem (Name column) ys frame)))
       \<and> (\<forall>entry\<in>set schema. Name entry \<in> set (columns frame0)
               \<and> cast_dataframe env schema frame0 = Returned frame1 \<longrightarrow>
            (\<exists>ys zs. cast_series_type env ys (Type entry) = Some zs))"
proof -
  have d: "\<forall>entry\<in>set schema. Name entry \<in> set (columns frame0)
               \<and> cast_dataframe env schema frame0 = Returned frame1 \<longrightarrow>
            (\<exists>ys zs. cast_series_type env ys (Type entry) = Some zs)"
    using cast_dataframe_casts[of env schema frame0 frame1] by blast
  from assms have present: "Name column \<in> set (columns frame)" by (simp add: in_columns_iff)
  have a: "\<exists>xs1 xs2 ys. parsed env (Name column) xs = Some xs1
               \<and> apply_rules (matching_rules (Name column)) xs1 = Inr xs2
               \<and> cast_series_type env xs2 (Type column) = Some ys
               \<and> cast_dataframe env rest (setitem (Name column) ys frame) = Returned frame'"
    if r: "cast_dataframe env (column # rest) frame = Returned frame'" for frame'
  proof -
    from r present obtain fr1 where
      c1: "cast_column env column frame = Returned fr1" and
      r1: "cast_dataframe env rest fr1 = Returned frame'"
      by (cases "cast_column env column frame") auto
    from cast_column_Returned[OF assms c1] r1 show ?thesis by blast
  qed
  have b: "cast_dataframe env (column # rest) frame
              = Raised TypeCoercionError (setitem (Name column) xs2 frame)"
    if "parsed env (Name column) xs = Some xs1"
       "apply_rules (matching_rules (Name column)) xs1 = Inr xs2"
       "cast_series_type env xs2 (Type column) = None" for xs1 xs2
    using cast_dataframe_Cons_cast[OF assms that(1,2), of rest] that(3) by simp
  have c: "cast_dataframe env (column # rest) frame =
              (case cast_series_type env xs (Type column) of
                 None \<Rightarrow> Raised TypeCoercionError frame
               | Some ys \<Rightarrow> cast_dataframe env rest (setitem (Name column) ys frame))"
    if "\<not> temporal (Name column)" "matching_rules (Name column) = []"
  proof -
    have "parsed env (Name column) xs = Some xs" using that(1) by (simp add: parsed_def)
    moreover have "apply_rules (matching_rules (Name column)) xs = Inr xs" using that(2) by simp
    ultimately show ?thesis
      using cast_dataframe_Cons_cast[OF assms, of env xs xs rest] assms
      by (simp add: setitem_same split: option.splits)
  qed
  from a b c d show ?thesis by blast
qed

theorem type_coercion_always_runs_witness:
  "cast_dataframe basic_env [\<lparr>Name = ''note'', Type = ''string''\<rparr>] [(''note'', [IntV 7])]
     = Returned [(''note'', [StrV ''7''])]
   \<and> (\<exists>xs1 xs2 ys. parsed basic_env ''note'' [IntV 7] = Some xs1
        \<and> apply_rules (matching_rules ''note'') xs1 = Inr xs2
        \<and> cast_series_type basic_env xs2 ''string'' = Some ys
        \<and> cast_dataframe basic_env [] (setitem ''note'' ys [(''note'', [IntV 7])])
            = Returned [(''note'', [StrV ''7''])])
   \<and> cast_series_type basic_env [StrV ''00x12''] ''bigint'' = None
   \<and> cast_dataframe basic_env [\<lparr>Name = ''zip_cd'', Type = ''bigint''\<rparr>] [(''zip_cd'', [StrV ''x12''])]
     = Raised TypeCoercionError [(''zip_cd'', [StrV ''00x12''])]
   \<and> \<not> temporal ''note'' \<and> matching_rules ''note'' = []"
proof -
  have g: "getitem [(''note'', [IntV 7])] (Name \<lparr>Name = ''note'', Type = ''string''\<rparr>) = Some [IntV 7]"
    by (simp add: getitem_def)
  have ret: "cast_dataframe basic_env [\<lparr>Name = ''note'', Type = ''string''\<rparr>] [(''note'', [IntV 7])]
     = Returned [(''note'', [StrV ''7''])]"
    by (simp add: name_eval value_eval frame_eval basic_eval)
  have g2: "getitem [(''zip_cd'', [StrV ''x12''])] (Name \<lparr>Name = ''zip_cd'', Type = ''bigint''\<rparr>)
              = Some [StrV ''x12'']"
    by (simp add: getitem_def)
  have p2: "parsed basic_env ''zip_cd'' [StrV ''x12''] = Some [StrV ''x12'']"
    by (simp add: parsed_def temporal_def name_eval)
  have r2: "apply_rules (matching_rules ''zip_cd'') [StrV ''x12''] = Inr [StrV ''00x12'']"
    by (simp add: matching_rules_def padding_table_def name_eval value_eval)
  have k2: "cast_series_type basic_env [StrV ''00x12''] ''bigint'' = None"
    by (simp add: basic_eval)
  have n: "\<not> temporal ''note''" by (simp add: temporal_def name_eval)
  have m: "matching_rules ''note'' = []"
    by (simp add: matching_rules_def padding_table_def name_eval)
  have e: "\<exists>xs1 xs2 ys. parsed basic_env ''note'' [IntV 7] = Some xs1
        \<and> apply_rules (matching_rules ''note'') xs1 = Inr xs2
        \<and> cast_series_type basic_env xs2 ''string'' = Some ys
        \<and> cast_dataframe basic_env [] (setitem ''note'' ys [(''note'', [IntV 7])])
            = Returned [(''note'', [StrV ''7''])]"
    using type_coercion_always_runs[OF g, where env = basic_env and rest = "[]"] ret
    by (simp del: cast_dataframe.simps)
  have f: "cast_dataframe basic_env [\<lparr>Name = ''zip_cd'', Type = ''bigint''\<rparr>] [(''zip_cd'', [StrV ''x12''])]
     = Raised TypeCoercionError [(''zip_cd'', [StrV ''00x12''])]"
    using type_coercion_always_runs[OF g2, where env = basic_env and rest = "[]"] p2 r2 k2
    by (simp del: cast_dataframe.simps add: setitem_def)
  from ret e k2 f n m show ?thesis by blast
qed

subsection \<open>C10: the shape of the frame\<close>

text \<open>
  C10: when \<open>cast_dataframe\<close> returns, the frame has the same column labels in the same
  order, every column has as many rows as before, and row \<open>i\<close> of every column is the
  image of row \<open>i\<close> of the column passed in (\<open>row_image\<close>), so no row is added, dropped or
  moved. The two helpers are parameters of the model; as pandas operations they work
  value by value on the index of their argument, which enters as the hypothesis that
  their result is the image of their argument under a function of the value. The padding
  statements go through \<open>Series.apply\<close>, which is row-wise in the code itself.
\<close>

theorem shape_preserved:
  assumes dt: "\<forall>xs ys. to_datetime env xs = Some ys \<longrightarrow> ys = map P xs"
    and ct: "\<forall>xs t ys. cast_series_type env xs t = Some ys \<longrightarrow> ys = map (K t) xs"
    and ret: "cast_dataframe env schema frame = Returned frame'"
  shows "columns frame' = columns frame
         \<and> map (\<lambda>p. length (snd p)) frame' = map (\<lambda>p. length (snd p)) frame
         \<and> (\<forall>c xs. getitem frame c = Some xs \<longrightarrow>
               getitem frame' c = Some (map (row_image P K schema c) xs))"
proof -
  have rows: "\<forall>c xs. getitem frame c = Some xs \<longrightarrow>
               getitem frame' c = Some (map (row_image P K schema c) xs)"
    using cast_dataframe_row_image[OF dt ct ret] by blast
  have cols: "columns frame' = columns frame"
    using cast_dataframe_columns[of env schema frame] ret by simp
  have "map (\<lambda>p. length (snd p)) frame' = map (\<lambda>p. length (snd p)) frame"
    using ret
  proof (induction schema arbitrary: frame)
    case Nil
    then show ?case by simp
  next
    case (Cons column rest)
    show ?case
    proof (cases "Name column \<in> set (columns frame)")
      case False
      with Cons show ?thesis by simp
    next
      case True
      then obtain xs where xs: "getitem frame (Name column) = Some xs"
        by (auto simp: in_columns_iff)
      from Cons.prems True obtain fr1 where
        c1: "cast_column env column frame = Returned fr1" and
        r1: "cast_dataframe env rest fr1 = Returned frame'"
        by (cases "cast_column env column frame") auto
      from cast_column_row_image[OF dt ct xs c1]
      have f: "fr1 = setitem (Name column) (map (entry_value P K column) xs) frame" .
      with xs have "map (\<lambda>p. length (snd p)) fr1 = map (\<lambda>p. length (snd p)) frame"
        by (simp add: lengths_setitem)
      with Cons.IH[OF r1] show ?thesis by simp
    qed
  qed
  with cols rows show ?thesis by blast
qed

theorem shape_preserved_witness:
  "cast_dataframe basic_env
     [\<lparr>Name = ''zip_cd'', Type = ''string''\<rparr>, \<lparr>Name = ''event_date'', Type = ''timestamp''\<rparr>]
     [(''event_date'', [StrV ''2020-01-31'', StrV ''2021-12-01'']), (''zip_cd'', [IntV 123, IntV 60614])]
   = Returned [(''event_date'', [TimeV ''2020-01-31 00:00:00'', TimeV ''2021-12-01 00:00:00'']),
               (''zip_cd'', [StrV ''00123'', StrV ''60614''])]
   \<and> columns [(''event_date'', [TimeV ''2020-01-31 00:00:00'', TimeV ''2021-12-01 00:00:00'']),
               (''zip_cd'', [StrV ''00123'', StrV ''60614''])]
     = columns [(''event_date'', [StrV ''2020-01-31'', StrV ''2021-12-01'']), (''zip_cd'', [IntV 123, IntV 60614])]
   \<and> map (\<lambda>p. length (snd p))
         [(''event_date'', [TimeV ''2020-01-31 00:00:00'', TimeV ''2021-12-01 00:00:00'']),
          (''zip_cd'', [StrV ''00123'', StrV ''60614''])]
     = map (\<lambda>p. length (snd p))
         [(''event_date'', [StrV ''2020-01-31'', StrV ''2021-12-01'']), (''zip_cd'', [IntV 123, IntV 60614])]
   \<and> getitem [(''event_date'', [TimeV ''2020-01-31 00:00:00'', TimeV ''2021-12-01 00:00:00'']),
               (''zip_cd'', [StrV ''00123'', StrV ''60614''])] ''zip_cd''
     = Some (map (row_image parse_or_keep cast_or_keep
                    [\<lparr>Name = ''zip_cd'', Type = ''string''\<rparr>, \<lparr>Name = ''event_date'', Type = ''timestamp''\<rparr>]
                    ''zip_cd'') [IntV 123, IntV 60614])
   \<and> getitem [(''event_date'', [TimeV ''2020-01-31 00:00:00'', TimeV ''2021-12-01 00:00:00'']),
               (''zip_cd'', [StrV ''00123'', StrV ''60614''])] ''event_date''
     = Some (map (row_image parse_or_keep cast_or_keep
                    [\<lparr>Name = ''zip_cd'', Type = ''string''\<rparr>, \<lparr>Name = ''event_date'', Type = ''timestamp''\<rparr>]
                    ''event_date'') [StrV ''2020-01-31'', StrV ''2021-12-01''])"
proof -
  have dt: "\<forall>xs ys. to_datetime basic_env xs = Some ys \<longrightarrow> ys = map parse_or_keep xs"
    by (simp add: basic_env_def to_datetime_iso_pointwise)
  have ct: "\<forall>xs t ys. cast_series_type basic_env xs t = Some ys \<longrightarrow> ys = map (cast_or_keep t) xs"
    by (simp add: basic_env_def cast_series_basic_pointwise)
  have ret: "cast_dataframe basic_env
     [\<lparr>Name = ''zip_cd'', Type = ''string''\<rparr>, \<lparr>Name = ''event_date'', Type = ''timestamp''\<rparr>]
     [(''event_date'', [StrV ''2020-01-31'', StrV ''2021-12-01'']), (''zip_cd'', [IntV 123, IntV 60614])]
   = Returned [(''event_date'', [TimeV ''2020-01-31 00:00:00'', TimeV ''2021-12-01 00:00:00'']),
               (''zip_cd'', [StrV ''00123'', StrV ''60614''])]"
    by (simp add: name_eval value_eval frame_eval basic_eval)
  have g1: "getitem [(''event_date'', [StrV ''2020-01-31'', StrV ''2021-12-01'']),
                     (''zip_cd'', [IntV 123, IntV 60614])] ''zip_cd'' = Some [IntV 123, IntV 60614]"
    by (simp add: getitem_def)
  have g2: "getitem [(''event_date'', [StrV ''2020-01-31'', StrV ''2021-12-01'']),
                     (''zip_cd'', [IntV 123, IntV 60614])] ''event_date''
              = Some [StrV ''2020-01-31'', StrV ''2021-12-01'']"
    by (simp add: getitem_def)
  note T = shape_preserved[OF dt ct ret]
  from T g1 g2 ret show ?thesis by blast
qed

end
